theory Spec2Isabelle
  imports Main "HOL-Library.Char_ord" "HOL-Library.Multiset"
begin

section \<open>Values shared by the three components\<close>

text \<open>
  A JavaScript string is modelled as a \<^typ>\<open>string\<close>: one \<^typ>\<open>char\<close> stands for one
  UTF-16 code unit. The only string operation of the sources that looks inside a string is
  \<^verbatim>\<open>replace(/[^a-zA-Z0-9_]/g, "_")\<close>, which has no \<^verbatim>\<open>u\<close> flag and therefore works
  code unit by code unit.

  A parsed JSON value (the \<^verbatim>\<open>unknown\<close> handed to \<^verbatim>\<open>validateMcpConfig\<close> by
  \<^verbatim>\<open>loadMcpConfig\<close>). An object is the list of its own enumerable properties in the order
  \<^verbatim>\<open>Object.entries\<close> enumerates them; the keys of a JavaScript object are distinct, and
  the theorems below hold of every list. The payload of a number is never inspected by
  the sources.
\<close>

datatype json =
    JNull
  | JBool bool
  | JNum int
  | JStr string
  | JArr "json list"
  | JObj "(string \<times> json) list"

text \<open>Errors thrown inside the connection manager and by the protocol SDK.\<close>

datatype error = Error string | TypeError string

section \<open>Identifier sanitization\<close>

text \<open>The character class \<^verbatim>\<open>[a-zA-Z0-9_]\<close> of both regular expressions.\<close>

definition is_identifier_char :: "char \<Rightarrow> bool" where
  "is_identifier_char c \<longleftrightarrow>
     (CHR ''a'' \<le> c \<and> c \<le> CHR ''z'') \<or>
     (CHR ''A'' \<le> c \<and> c \<le> CHR ''Z'') \<or>
     (CHR ''0'' \<le> c \<and> c \<le> CHR ''9'') \<or>
     c = CHR ''_''"

text \<open>\<^verbatim>\<open>name.replace(/[^a-zA-Z0-9_]/g, "_")\<close> in \<^verbatim>\<open>mcp_config.ts\<close>.\<close>

definition sanitizeServerName :: "string \<Rightarrow> string" where
  "sanitizeServerName nm = map (\<lambda>c. if is_identifier_char c then c else CHR ''_'') nm"

text \<open>\<^verbatim>\<open>str.replace(/[^a-zA-Z0-9_]/g, "_")\<close> in \<^verbatim>\<open>mcp_schema_fetcher.ts\<close>.\<close>

definition sanitizeIdentifier :: "string \<Rightarrow> string" where
  "sanitizeIdentifier str = map (\<lambda>c. if is_identifier_char c then c else CHR ''_'') str"

section \<open>Config validator (\<^verbatim>\<open>mcp_config.ts\<close>)\<close>

subsection \<open>JavaScript views of a JSON value\<close>

text \<open>\<^verbatim>\<open>typeof v === "object" && v !== null\<close>: true of objects and of arrays.\<close>

fun is_object :: "json \<Rightarrow> bool" where
  "is_object (JObj kvs) = True"
| "is_object (JArr xs) = True"
| "is_object _ = False"

text \<open>The decimal numeral of an array index, the property key of an array element.\<close>

fun decimal :: "nat \<Rightarrow> string" where
  "decimal n =
     (if n < 10 then [''0123456789'' ! n]
      else decimal (n div 10) @ [''0123456789'' ! (n mod 10)])"

declare decimal.simps [simp del]

text \<open>
  \<^verbatim>\<open>Object.entries(v)\<close> for a value that passed the object test: the properties of an
  object, the indexed elements of an array.
\<close>

fun own_entries :: "json \<Rightarrow> (string \<times> json) list" where
  "own_entries (JObj kvs) = kvs"
| "own_entries (JArr xs) = zip (map decimal [0..<length xs]) xs"
| "own_entries _ = []"

text \<open>
  Property access \<^verbatim>\<open>v.key\<close>; \<^const>\<open>None\<close> is \<^verbatim>\<open>undefined\<close>. The sources read the
  keys \<^verbatim>\<open>mcpServers\<close>, \<^verbatim>\<open>transport\<close>, \<^verbatim>\<open>command\<close>, \<^verbatim>\<open>args\<close>, \<^verbatim>\<open>env\<close>,
  \<^verbatim>\<open>url\<close> and \<^verbatim>\<open>headers\<close>, none of which is inherited from a prototype.
\<close>

definition get_prop :: "json \<Rightarrow> string \<Rightarrow> json option" where
  "get_prop v key = map_of (own_entries v) key"

text \<open>The string behind a value with \<^verbatim>\<open>typeof v === "string"\<close>.\<close>

fun as_string :: "json \<Rightarrow> string option" where
  "as_string (JStr s) = Some s"
| "as_string _ = None"

text \<open>
  The entries of a record whose values are all strings; \<^const>\<open>None\<close> when
  \<^verbatim>\<open>Object.values(v).every((val) => typeof val === "string")\<close> is false.
\<close>

definition string_entries :: "json \<Rightarrow> (string \<times> string) list option" where
  "string_entries v =
     those (map (\<lambda>(k, x). map_option (Pair k) (as_string x)) (own_entries v))"

text \<open>
  Assignment \<^verbatim>\<open>obj[key] = value\<close> on a plain object and \<^verbatim>\<open>map.set(key, value)\<close> on a
  \<^verbatim>\<open>Map\<close>: an existing key keeps its place, a new key goes last. (A plain object
  enumerates integer-like keys first; no property below depends on the place of a key.
  The sources run under Deno, where \<^verbatim>\<open>__proto__\<close> is a key like any other.)
\<close>

fun map_set :: "'k \<Rightarrow> 'v \<Rightarrow> ('k \<times> 'v) list \<Rightarrow> ('k \<times> 'v) list" where
  "map_set k v [] = [(k, v)]"
| "map_set k v (p # ps) = (if fst p = k then (k, v) # ps else p # map_set k v ps)"

subsection \<open>Server configurations\<close>

text \<open>
  \<^verbatim>\<open>McpServerConfig\<close>, the union of the stdio and the HTTP interface, as the object it is
  at run time: each field present or absent.
\<close>

record McpServerConfig =
  transport :: "string option"
  command :: "string option"
  args :: "string list option"
  env :: "(string \<times> string) list option"
  url :: "string option"
  headers :: "(string \<times> string) list list option"

record McpConfigFile =
  mcpServers :: "(string \<times> McpServerConfig) list"

text \<open>One constructor for each \<^verbatim>\<open>throw new Error(...)\<close> of \<^verbatim>\<open>validateMcpConfig\<close>.\<close>

datatype config_error =
    ConfigNotObject
  | MissingMcpServers
  | McpServersNotObject
  | ServerConfigNotObject string
  | InvalidTransport string
  | CommandNotString string
  | ArgsNotArray string
  | ArgsNotStrings string
  | EnvNotObject string
  | EnvValuesNotStrings string
  | UrlNotString string
  | HeadersInvalid string

subsection \<open>\<^verbatim>\<open>validateMcpConfig\<close>\<close>

text \<open>The test that skips the bridge server (lines 87 to 92).\<close>

definition is_bridge :: "json \<Rightarrow> bool" where
  "is_bridge serverConfig \<longleftrightarrow>
     is_object serverConfig \<and> get_prop serverConfig ''command'' = Some (JStr ''mcp-rpc-bridge'')"

text \<open>\<^verbatim>\<open>cfg.transport ?? "stdio"\<close>: the default replaces \<^verbatim>\<open>undefined\<close> and \<^verbatim>\<open>null\<close>.\<close>

definition transport_or_default :: "json \<Rightarrow> json" where
  "transport_or_default cfg =
     (case get_prop cfg ''transport'' of
        None \<Rightarrow> JStr ''stdio''
      | Some JNull \<Rightarrow> JStr ''stdio''
      | Some t \<Rightarrow> t)"

text \<open>The stdio branch (lines 114 to 145).\<close>

definition validate_stdio :: "string \<Rightarrow> json \<Rightarrow> config_error + McpServerConfig" where
  "validate_stdio serverName cfg =
     (case get_prop cfg ''command'' of
        Some (JStr cmd) \<Rightarrow>
          (case get_prop cfg ''args'' of
             Some (JArr xs) \<Rightarrow>
               (case those (map as_string xs) of
                  None \<Rightarrow> Inl (ArgsNotStrings serverName)
                | Some ss \<Rightarrow>
                    (case get_prop cfg ''env'' of
                       None \<Rightarrow>
                         Inr \<lparr>transport = Some ''stdio'', command = Some cmd, args = Some ss,
                              env = None, url = None, headers = None\<rparr>
                     | Some ev \<Rightarrow>
                         if \<not> is_object ev then Inl (EnvNotObject serverName)
                         else
                           (case string_entries ev of
                              None \<Rightarrow> Inl (EnvValuesNotStrings serverName)
                            | Some kvs \<Rightarrow>
                                Inr \<lparr>transport = Some ''stdio'', command = Some cmd,
                                     args = Some ss, env = Some kvs, url = None,
                                     headers = None\<rparr>)))
           | _ \<Rightarrow> Inl (ArgsNotArray serverName))
      | _ \<Rightarrow> Inl (CommandNotString serverName))"

text \<open>
  The test on \<^verbatim>\<open>cfg.headers\<close> (lines 151 to 160): the headers as typed records, or
  \<^const>\<open>None\<close> when the value is not an array of objects with string values.
\<close>

definition header_records :: "json \<Rightarrow> (string \<times> string) list list option" where
  "header_records hv =
     (case hv of
        JArr hs \<Rightarrow> those (map (\<lambda>h. if is_object h then string_entries h else None) hs)
      | _ \<Rightarrow> None)"

text \<open>The HTTP branch (lines 147 to 170), for transport \<open>t\<close>.\<close>

definition validate_http :: "string \<Rightarrow> string \<Rightarrow> json \<Rightarrow> config_error + McpServerConfig" where
  "validate_http serverName t cfg =
     (case get_prop cfg ''url'' of
        Some (JStr u) \<Rightarrow>
          (case get_prop cfg ''headers'' of
             None \<Rightarrow>
               Inr \<lparr>transport = Some t, command = None, args = None, env = None,
                    url = Some u, headers = None\<rparr>
           | Some hv \<Rightarrow>
               (case header_records hv of
                  None \<Rightarrow> Inl (HeadersInvalid serverName)
                | Some hs \<Rightarrow>
                    Inr \<lparr>transport = Some t, command = None, args = None, env = None,
                         url = Some u, headers = Some hs\<rparr>))
      | _ \<Rightarrow> Inl (UrlNotString serverName))"

text \<open>The body of the loop from line 98 on: the validated configuration of one entry.\<close>

definition validate_server :: "string \<Rightarrow> json \<Rightarrow> config_error + McpServerConfig" where
  "validate_server serverName cfg =
     (case transport_or_default cfg of
        JStr t \<Rightarrow>
          if t \<noteq> ''stdio'' \<and> t \<noteq> ''streamable_http'' \<and> t \<noteq> ''sse''
          then Inl (InvalidTransport serverName)
          else if t = ''stdio'' then validate_stdio serverName cfg
          else validate_http serverName t cfg
      | _ \<Rightarrow> Inl (InvalidTransport serverName))"

text \<open>The loop over \<^verbatim>\<open>Object.entries(mcpServers)\<close>, with the record built so far.\<close>

fun validate_servers ::
  "(string \<times> json) list \<Rightarrow> (string \<times> McpServerConfig) list \<Rightarrow>
     config_error + (string \<times> McpServerConfig) list" where
  "validate_servers [] validated = Inr validated"
| "validate_servers ((serverName, serverConfig) # rest) validated =
     (if is_bridge serverConfig then validate_servers rest validated
      else if \<not> is_object serverConfig then Inl (ServerConfigNotObject serverName)
      else
        (case validate_server serverName serverConfig of
           Inl e \<Rightarrow> Inl e
         | Inr validatedConfig \<Rightarrow>
             validate_servers rest
               (map_set (sanitizeServerName serverName) validatedConfig validated)))"

definition validateMcpConfig :: "json \<Rightarrow> config_error + McpConfigFile" where
  "validateMcpConfig config =
     (if \<not> is_object config then Inl ConfigNotObject
      else
        (case get_prop config ''mcpServers'' of
           None \<Rightarrow> Inl MissingMcpServers
         | Some servers \<Rightarrow>
             if \<not> is_object servers then Inl McpServersNotObject
             else
               (case validate_servers (own_entries servers) [] of
                  Inl e \<Rightarrow> Inl e
                | Inr validated \<Rightarrow> Inr \<lparr>mcpServers = validated\<rparr>)))"

subsection \<open>The structural violations the specification lists\<close>

text \<open>
  The words of the specification, read on JavaScript values: an object is a value that
  passes \<^const>\<open>is_object\<close> (an array is one), a field is present when it is not
  \<^verbatim>\<open>undefined\<close>.
\<close>

definition is_string :: "json option \<Rightarrow> bool" where
  "is_string v \<longleftrightarrow> (case v of Some (JStr s) \<Rightarrow> True | _ \<Rightarrow> False)"

definition is_array_of_strings :: "json option \<Rightarrow> bool" where
  "is_array_of_strings v \<longleftrightarrow>
     (case v of Some (JArr xs) \<Rightarrow> list_all (\<lambda>x. is_string (Some x)) xs | _ \<Rightarrow> False)"

definition is_object_of_strings :: "json \<Rightarrow> bool" where
  "is_object_of_strings v \<longleftrightarrow>
     is_object v \<and> list_all (\<lambda>(k, x). is_string (Some x)) (own_entries v)"

definition is_array_of_string_objects :: "json \<Rightarrow> bool" where
  "is_array_of_string_objects v \<longleftrightarrow>
     (case v of JArr hs \<Rightarrow> list_all is_object_of_strings hs | _ \<Rightarrow> False)"

text \<open>
  For stdio: command is not a string, or args is not an array of strings, or (if present)
  env is not an object of string values.
\<close>

definition stdio_violation :: "json \<Rightarrow> bool" where
  "stdio_violation e \<longleftrightarrow>
     \<not> is_string (get_prop e ''command'') \<or>
     \<not> is_array_of_strings (get_prop e ''args'') \<or>
     (case get_prop e ''env'' of None \<Rightarrow> False | Some ev \<Rightarrow> \<not> is_object_of_strings ev)"

text \<open>
  For streamable_http and sse: url is not a string, or (if present) headers is not an array
  of objects whose values are all strings.
\<close>

definition http_violation :: "json \<Rightarrow> bool" where
  "http_violation e \<longleftrightarrow>
     \<not> is_string (get_prop e ''url'') \<or>
     (case get_prop e ''headers'' of
        None \<Rightarrow> False
      | Some hv \<Rightarrow> \<not> is_array_of_string_objects hv)"

text \<open>
  The violations of one per-server entry whose transport field reads \<open>tr\<close>
  (\<^const>\<open>None\<close> when absent): the entry is not an object; the transport is present but not
  one of the three kinds; the violations of its kind, stdio being the default.
\<close>

definition entry_violation :: "json option \<Rightarrow> json \<Rightarrow> bool" where
  "entry_violation tr e \<longleftrightarrow>
     \<not> is_object e \<or>
     (tr \<noteq> None \<and> tr \<noteq> Some (JStr ''stdio'') \<and> tr \<noteq> Some (JStr ''streamable_http'') \<and>
        tr \<noteq> Some (JStr ''sse'')) \<or>
     ((tr = None \<or> tr = Some (JStr ''stdio'')) \<and> stdio_violation e) \<or>
     ((tr = Some (JStr ''streamable_http'') \<or> tr = Some (JStr ''sse'')) \<and> http_violation e)"

text \<open>
  The top-level value is not an object, or lacks a \<^verbatim>\<open>mcpServers\<close> object field, or an
  entry selected by \<open>checked\<close> has a violation, its transport read by \<open>transport_of\<close>.
\<close>

definition config_violation ::
  "(json \<Rightarrow> bool) \<Rightarrow> (json \<Rightarrow> json option) \<Rightarrow> json \<Rightarrow> bool" where
  "config_violation checked transport_of config \<longleftrightarrow>
     \<not> is_object config \<or>
     (case get_prop config ''mcpServers'' of
        None \<Rightarrow> True
      | Some servers \<Rightarrow>
          \<not> is_object servers \<or>
          list_ex (\<lambda>(serverName, e). checked e \<and> entry_violation (transport_of e) e)
            (own_entries servers))"

text \<open>As the specification states it: every entry is checked, with its transport field as
  written.\<close>

definition stated_violation :: "json \<Rightarrow> bool" where
  "stated_violation config \<longleftrightarrow>
     config_violation (\<lambda>e. True) (\<lambda>e. get_prop e ''transport'') config"

text \<open>
  As the code decides it: an entry of the bridge server is not checked, and a transport
  field holding \<^verbatim>\<open>null\<close> counts as absent.
\<close>

definition transport_field :: "json \<Rightarrow> json option" where
  "transport_field e =
     (case get_prop e ''transport'' of None \<Rightarrow> None | Some JNull \<Rightarrow> None | Some t \<Rightarrow> Some t)"

definition checked_violation :: "json \<Rightarrow> bool" where
  "checked_violation config \<longleftrightarrow>
     config_violation (\<lambda>e. \<not> is_bridge e) transport_field config"

section \<open>Protocol sessions\<close>

text \<open>
  The SDK's \<^verbatim>\<open>Client\<close> is outside the sources. A session is modelled by what its calls
  answer: \<^const>\<open>Inl\<close> is a rejected promise, \<^const>\<open>Inr\<close> a fulfilled one. A call whose
  promise never settles is not modelled; no function below returns while one is pending.

  An entry of a tool listing and of a resource listing, with the fields the fetcher reads.
  \<^verbatim>\<open>uriTemplate\<close> is read behind a run-time type test and stays a JSON value.
\<close>

record Tool =
  tool_name :: string
  tool_description :: "string option"
  tool_inputSchema :: json

record Resource =
  resource_name :: string
  resource_description :: "string option"
  resource_uri :: "string option"
  resource_uriTemplate :: "json option"
  resource_mimeType :: "string option"

text \<open>
  The field \<^verbatim>\<open>response.tools\<close> or \<^verbatim>\<open>response.resources\<close> of a listing:
  \<^verbatim>\<open>NotAnArray\<close> when it is falsy or fails \<^verbatim>\<open>Array.isArray\<close>.
\<close>

datatype 'a listing = NotAnArray | Items "'a list"

record Client =
  listTools :: "error + Tool listing"
  listResources :: "error + Resource listing"
  close :: "error + unit"

section \<open>Connection manager (\<^verbatim>\<open>McpClientManager\<close>)\<close>

subsection \<open>State and collaborators\<close>

datatype Transport =
    StdioClientTransport string "string list" "(string \<times> string) list"
  | StreamableHTTPClientTransport string
  | SSEClientTransport string

text \<open>
  What the surroundings answer during one call: \<^verbatim>\<open>Deno.env.toObject()\<close>, whether
  \<^verbatim>\<open>new URL(s)\<close> accepts a string, and how \<^verbatim>\<open>client.connect(transport)\<close> settles for
  the attempt made for a server name.
\<close>

record world =
  env_toObject :: "error + (string \<times> string) list"
  parse_URL :: "string \<Rightarrow> bool"
  connect :: "string \<Rightarrow> Transport \<Rightarrow> error + Client"

text \<open>
  The two stored statuses and \<^verbatim>\<open>"unknown"\<close>, which only
  \<^verbatim>\<open>getConnectionStatus\<close> answers; no operation stores it.
\<close>

datatype status = Connected | Failed | Unknown

record McpClientManager =
  clients :: "(string \<times> Client) list"
  connectionStatus :: "(string \<times> status) list"

text \<open>The constructor.\<close>

definition new_McpClientManager :: McpClientManager where
  "new_McpClientManager = \<lparr>clients = [], connectionStatus = []\<rparr>"

subsection \<open>\<^verbatim>\<open>connectClient\<close>\<close>

text \<open>Object spread \<^verbatim>\<open>{ ...a, ...b }\<close>: the entries of \<open>b\<close> override those of \<open>a\<close>.\<close>

definition spread :: "('k \<times> 'v) list \<Rightarrow> ('k \<times> 'v) list \<Rightarrow> ('k \<times> 'v) list" where
  "spread a b = fold (\<lambda>(k, v). map_set k v) b a"

text \<open>The transport chosen by the immediately invoked function of lines 58 to 89.\<close>

definition select_transport :: "world \<Rightarrow> McpServerConfig \<Rightarrow> error + Transport" where
  "select_transport w config =
     (let transportType = (case transport config of None \<Rightarrow> ''stdio'' | Some t \<Rightarrow> t) in
      if transportType = ''stdio'' then
        (case command config of
           None \<Rightarrow> Inl (Error ''Stdio transport requires command and args.'')
         | Some cmd \<Rightarrow>
             (case args config of
                None \<Rightarrow> Inl (Error ''Stdio transport requires command and args.'')
              | Some as \<Rightarrow>
                  (case env_toObject w of
                     Inl e \<Rightarrow> Inl e
                   | Inr processEnv \<Rightarrow>
                       Inr (StdioClientTransport cmd as
                             (spread processEnv
                                (case env config of None \<Rightarrow> [] | Some ev \<Rightarrow> ev))))))
      else if (transportType = ''streamable_http'' \<or> transportType = ''sse'') \<and>
          url config \<noteq> None then
        (case url config of
           Some u \<Rightarrow>
             if \<not> parse_URL w u then Inl (TypeError ''Invalid URL'')
             else if transportType = ''streamable_http''
               then Inr (StreamableHTTPClientTransport u)
               else Inr (SSEClientTransport u)
         | None \<Rightarrow> Inl (Error ''Invalid MCP server config.''))
      else Inl (Error ''Invalid MCP server config.''))"

text \<open>
  Everything of the \<^verbatim>\<open>try\<close> block that can throw (lines 55 to 101): the choice of the
  transport, then the handshake \<^verbatim>\<open>await client.connect(transport)\<close>.
\<close>

definition open_session :: "world \<Rightarrow> string \<Rightarrow> McpServerConfig \<Rightarrow> error + Client" where
  "open_session w serverName config =
     (case select_transport w config of
        Inl e \<Rightarrow> Inl e
      | Inr tr \<Rightarrow> connect w serverName tr)"

text \<open>The attempt for an entry of the configuration record succeeds.\<close>

definition attempt_succeeds :: "world \<Rightarrow> string \<times> McpServerConfig \<Rightarrow> bool" where
  "attempt_succeeds w entry \<longleftrightarrow> \<not> isl (open_session w (fst entry) (snd entry))"

text \<open>The status an attempt ends with.\<close>

definition attempt_status :: "world \<Rightarrow> string \<times> McpServerConfig \<Rightarrow> status" where
  "attempt_status w entry = (if attempt_succeeds w entry then Connected else Failed)"

text \<open>
  One call of \<^verbatim>\<open>connectClient\<close>, awaited on its own. The result is the promise the caller
  awaits: \<^const>\<open>Inl\<close> would be a rejection. The second case is the \<^verbatim>\<open>catch\<close> block.
\<close>

definition connectClient ::
  "world \<Rightarrow> string \<Rightarrow> McpServerConfig \<Rightarrow> McpClientManager \<Rightarrow> error + McpClientManager" where
  "connectClient w serverName config m =
     (case open_session w serverName config of
        Inr client \<Rightarrow>
          Inr (m\<lparr>clients := map_set serverName client (clients m),
                 connectionStatus := map_set serverName Connected (connectionStatus m)\<rparr>)
      | Inl e \<Rightarrow>
          Inr (m\<lparr>connectionStatus := map_set serverName Failed (connectionStatus m)\<rparr>))"

subsection \<open>Queries\<close>

definition getClient :: "McpClientManager \<Rightarrow> string \<Rightarrow> Client option" where
  "getClient m serverName = map_of (clients m) serverName"

definition getConnectedServerNames :: "McpClientManager \<Rightarrow> string list" where
  "getConnectedServerNames m = map fst (clients m)"

definition getConnectionStatus :: "McpClientManager \<Rightarrow> string \<Rightarrow> status" where
  "getConnectionStatus m serverName =
     (case map_of (connectionStatus m) serverName of None \<Rightarrow> Unknown | Some s \<Rightarrow> s)"

definition getAllConnectionStatuses :: "McpClientManager \<Rightarrow> (string \<times> status) list" where
  "getAllConnectionStatuses m = fold (\<lambda>(nm, s). map_set nm s) (connectionStatus m) []"

subsection \<open>\<^verbatim>\<open>initializeClients\<close>\<close>

text \<open>
  \<^verbatim>\<open>Object.entries(configs).map(...)\<close> calls \<^verbatim>\<open>connectClient\<close> for every entry in
  turn. Each call runs to its first \<^verbatim>\<open>await\<close>: it chooses the transport and, when that
  throws, runs its \<^verbatim>\<open>catch\<close> block at once; otherwise it is suspended at the handshake.
  A suspended call is a task: the server name and the transport.
\<close>

type_synonym task = "string \<times> Transport"

definition connectClient_start ::
  "world \<Rightarrow> string \<Rightarrow> McpServerConfig \<Rightarrow> McpClientManager \<Rightarrow> McpClientManager \<times> task option" where
  "connectClient_start w serverName config m =
     (case select_transport w config of
        Inl e \<Rightarrow> (m\<lparr>connectionStatus := map_set serverName Failed (connectionStatus m)\<rparr>, None)
      | Inr tr \<Rightarrow> (m, Some (serverName, tr)))"

text \<open>The rest of a suspended call, run when its handshake settles.\<close>

definition connectClient_resume :: "world \<Rightarrow> task \<Rightarrow> McpClientManager \<Rightarrow> McpClientManager" where
  "connectClient_resume w t m =
     (case connect w (fst t) (snd t) of
        Inr client \<Rightarrow>
          m\<lparr>clients := map_set (fst t) client (clients m),
            connectionStatus := map_set (fst t) Connected (connectionStatus m)\<rparr>
      | Inl e \<Rightarrow> m\<lparr>connectionStatus := map_set (fst t) Failed (connectionStatus m)\<rparr>)"

fun start_all ::
  "world \<Rightarrow> (string \<times> McpServerConfig) list \<Rightarrow> McpClientManager \<Rightarrow>
     McpClientManager \<times> task list" where
  "start_all w [] m = (m, [])"
| "start_all w ((serverName, config) # rest) m =
     (case connectClient_start w serverName config m of
        (m1, t) \<Rightarrow>
          (case start_all w rest m1 of
             (m2, ts) \<Rightarrow> (m2, (case t of None \<Rightarrow> ts | Some x \<Rightarrow> x # ts))))"

text \<open>The calls that \<^verbatim>\<open>Promise.allSettled\<close> waits for at their handshakes.\<close>

definition pending_tasks :: "world \<Rightarrow> (string \<times> McpServerConfig) list \<Rightarrow> task list" where
  "pending_tasks w configs = snd (start_all w configs new_McpClientManager)"

text \<open>
  \<^verbatim>\<open>initializeClients\<close>, for the entries \<open>configs\<close> of the record in the order of
  \<^verbatim>\<open>Object.entries\<close>. The handshakes settle in the order \<open>order\<close>, which the surroundings
  choose: any arrangement of the pending tasks. The result is the manager and the two
  name lists of the summary that is logged.
\<close>

definition initializeClients ::
  "world \<Rightarrow> task list \<Rightarrow> (string \<times> McpServerConfig) list \<Rightarrow> McpClientManager \<Rightarrow>
     McpClientManager \<times> string list \<times> string list" where
  "initializeClients w order configs m =
     (case start_all w configs m of
        (m1, pending) \<Rightarrow>
          (let m2 = fold (connectClient_resume w) order m1;
               connected = getConnectedServerNames m2;
               failed = map fst (filter (\<lambda>(nm, s). s = Failed) (connectionStatus m2))
           in (m2, connected, failed)))"

subsection \<open>\<^verbatim>\<open>disconnectAll\<close>\<close>

text \<open>The callback of line 159: a failing \<^verbatim>\<open>close\<close> is caught and logged.\<close>

definition close_client :: "string \<times> Client \<Rightarrow> error + unit" where
  "close_client entry = (case close (snd entry) of Inr u \<Rightarrow> Inr () | Inl e \<Rightarrow> Inr ())"

definition disconnectAll :: "McpClientManager \<Rightarrow> error + McpClientManager" where
  "disconnectAll m =
     (let settled = map close_client (clients m)
      in Inr (m\<lparr>clients := [], connectionStatus := []\<rparr>))"

subsection \<open>Sequences of operations\<close>

datatype operation =
    InitializeClients world "task list" "(string \<times> McpServerConfig) list"
  | ConnectClient world string McpServerConfig
  | GetClient string
  | GetConnectedServerNames
  | GetConnectionStatus string
  | GetAllConnectionStatuses
  | DisconnectAll

text \<open>The manager after an operation; the four queries only read.\<close>

fun perform :: "operation \<Rightarrow> McpClientManager \<Rightarrow> McpClientManager" where
  "perform (InitializeClients w order configs) m = fst (initializeClients w order configs m)"
| "perform (ConnectClient w serverName config) m =
     (case connectClient w serverName config m of Inr m' \<Rightarrow> m' | Inl e \<Rightarrow> m)"
| "perform DisconnectAll m = (case disconnectAll m of Inr m' \<Rightarrow> m' | Inl e \<Rightarrow> m)"
| "perform _ m = m"

definition run :: "operation list \<Rightarrow> McpClientManager \<Rightarrow> McpClientManager" where
  "run ops m = fold perform ops m"

text \<open>The server names an operation makes a connection attempt for.\<close>

fun attempted :: "operation \<Rightarrow> string set" where
  "attempted (InitializeClients w order configs) = fst ` set configs"
| "attempted (ConnectClient w serverName config) = {serverName}"
| "attempted _ = {}"

text \<open>The handshakes of an \<^verbatim>\<open>initializeClients\<close> settle in an arrangement of its pending
  tasks.\<close>

fun well_scheduled :: "operation \<Rightarrow> bool" where
  "well_scheduled (InitializeClients w order configs) \<longleftrightarrow>
     mset order = mset (pending_tasks w configs)"
| "well_scheduled _ \<longleftrightarrow> True"

text \<open>Two surroundings for examples: every handshake succeeds; every handshake fails.\<close>

definition idle_client :: Client where
  "idle_client = \<lparr>listTools = Inr (Items []), listResources = Inr (Items []), close = Inr ()\<rparr>"

definition reachable_world :: world where
  "reachable_world =
     \<lparr>env_toObject = Inr [], parse_URL = (\<lambda>u. True), connect = (\<lambda>nm tr. Inr idle_client)\<rparr>"

definition unreachable_world :: world where
  "unreachable_world =
     \<lparr>env_toObject = Inr [], parse_URL = (\<lambda>u. True),
      connect = (\<lambda>nm tr. Inl (Error ''connection refused''))\<rparr>"

text \<open>Stdio servers connect, HTTP endpoints refuse the connection.\<close>

definition mixed_world :: world where
  "mixed_world =
     \<lparr>env_toObject = Inr [], parse_URL = (\<lambda>u. True),
      connect = (\<lambda>nm tr. case tr of
                   StdioClientTransport cmd as ev \<Rightarrow> Inr idle_client
                 | _ \<Rightarrow> Inl (Error ''connection refused''))\<rparr>"

text \<open>Three configurations for examples; the last names no known transport.\<close>

definition true_stdio :: McpServerConfig where
  "true_stdio =
     \<lparr>transport = None, command = Some ''true'', args = Some [], env = None, url = None,
      headers = None\<rparr>"

definition local_sse :: McpServerConfig where
  "local_sse =
     \<lparr>transport = Some ''sse'', command = None, args = None, env = None,
      url = Some ''http://localhost:1'', headers = None\<rparr>"

definition websocket :: McpServerConfig where
  "websocket =
     \<lparr>transport = Some ''websocket'', command = None, args = None, env = None,
      url = Some ''http://localhost:1'', headers = None\<rparr>"

section \<open>Schema cache (\<^verbatim>\<open>McpSchemaFetcher\<close>)\<close>

text \<open>
  \<^verbatim>\<open>McpToolSchema\<close> and \<^verbatim>\<open>McpResourceSchema\<close> share their first three fields; the
  shared part is a record of its own so that both keep the field names of the source.
\<close>

record McpSchemaBase =
  name :: string
  originalName :: string
  description :: "string option"

record McpToolSchema = McpSchemaBase +
  inputSchema :: json

record McpResourceSchema = McpSchemaBase +
  uri :: "string option"
  uriTemplate :: "string option"
  mimeType :: "string option"

record McpServerSchemas =
  serverName :: string
  tools :: "McpToolSchema list"
  resources :: "McpResourceSchema list"

record McpSchemaFetcher =
  cache :: "(string \<times> McpServerSchemas) list"

definition new_McpSchemaFetcher :: McpSchemaFetcher where
  "new_McpSchemaFetcher = \<lparr>cache = []\<rparr>"

text \<open>The arrow functions mapped over a tool listing and over a resource listing.\<close>

definition tool_schema :: "Tool \<Rightarrow> McpToolSchema" where
  "tool_schema tool =
     \<lparr>name = sanitizeIdentifier (tool_name tool),
      originalName = tool_name tool,
      description = tool_description tool,
      inputSchema = tool_inputSchema tool\<rparr>"

definition resource_schema :: "Resource \<Rightarrow> McpResourceSchema" where
  "resource_schema resource =
     \<lparr>name = sanitizeIdentifier (resource_name resource),
      originalName = resource_name resource,
      description = resource_description resource,
      uri = resource_uri resource,
      uriTemplate =
        (case resource_uriTemplate resource of Some (JStr s) \<Rightarrow> Some s | _ \<Rightarrow> None),
      mimeType = resource_mimeType resource\<rparr>"

text \<open>
  \<^verbatim>\<open>fetchTools\<close> and \<^verbatim>\<open>fetchResources\<close>: the first case of each is the \<^verbatim>\<open>catch\<close>
  block. The parameter \<open>sname\<close> is the source's \<^verbatim>\<open>serverName\<close>.
\<close>

definition fetchTools :: "Client \<Rightarrow> string \<Rightarrow> error + McpToolSchema list" where
  "fetchTools client sname =
     (case listTools client of
        Inl e \<Rightarrow> Inr []
      | Inr NotAnArray \<Rightarrow> Inr []
      | Inr (Items ts) \<Rightarrow> Inr (map tool_schema ts))"

definition fetchResources :: "Client \<Rightarrow> string \<Rightarrow> error + McpResourceSchema list" where
  "fetchResources client sname =
     (case listResources client of
        Inl e \<Rightarrow> Inr []
      | Inr NotAnArray \<Rightarrow> Inr []
      | Inr (Items rs) \<Rightarrow> Inr (map resource_schema rs))"

text \<open>\<^verbatim>\<open>fetchSchemas\<close>: the returned schemas and the fetcher with its cache updated.\<close>

definition fetchSchemas ::
  "McpSchemaFetcher \<Rightarrow> Client \<Rightarrow> string \<Rightarrow> error + McpServerSchemas \<times> McpSchemaFetcher" where
  "fetchSchemas f client sname =
     (case fetchTools client sname of
        Inl e \<Rightarrow> Inl e
      | Inr ts \<Rightarrow>
          (case fetchResources client sname of
             Inl e \<Rightarrow> Inl e
           | Inr rs \<Rightarrow>
               (let schemas = \<lparr>serverName = sname, tools = ts, resources = rs\<rparr>
                in Inr (schemas, f\<lparr>cache := map_set sname schemas (cache f)\<rparr>))))"

definition getCachedSchemas :: "McpSchemaFetcher \<Rightarrow> string \<Rightarrow> McpServerSchemas option" where
  "getCachedSchemas f sname = map_of (cache f) sname"

text \<open>The body is \<^verbatim>\<open>return [];\<close> the enumeration of the cache is commented out.\<close>

definition getAllSchemas :: "McpSchemaFetcher \<Rightarrow> McpServerSchemas list" where
  "getAllSchemas f = []"

definition hasCachedSchemas :: "McpSchemaFetcher \<Rightarrow> string \<Rightarrow> bool" where
  "hasCachedSchemas f sname \<longleftrightarrow> sname \<in> fst ` set (cache f)"

text \<open>Sessions for examples: one listing call fails, the other answers.\<close>

definition readme_resource :: Resource where
  "readme_resource =
     \<lparr>resource_name = ''read-me'', resource_description = None,
      resource_uri = Some ''file:///README.md'', resource_uriTemplate = Some (JNum 1),
      resource_mimeType = Some ''text/markdown''\<rparr>"

definition echo_tool :: Tool where
  "echo_tool =
     \<lparr>tool_name = ''echo.text'', tool_description = Some ''Echo'',
      tool_inputSchema = JObj [(''type'', JStr ''object'')]\<rparr>"

definition tools_failing_client :: Client where
  "tools_failing_client =
     \<lparr>listTools = Inl (Error ''Method not found''),
      listResources = Inr (Items [readme_resource]), close = Inr ()\<rparr>"

definition resources_failing_client :: Client where
  "resources_failing_client =
     \<lparr>listTools = Inr (Items [echo_tool]),
      listResources = Inl (Error ''Method not found''), close = Inl (Error ''closed'')\<rparr>"

definition both_failing_client :: Client where
  "both_failing_client =
     \<lparr>listTools = Inl (Error ''Method not found''),
      listResources = Inl (Error ''Method not found''), close = Inr ()\<rparr>"

section \<open>Properties of sanitization\<close>

lemma is_identifier_char_underscore: "is_identifier_char (CHR ''_'')"
  by (simp add: is_identifier_char_def)

lemma sanitizeServerName_chars: "c \<in> set (sanitizeServerName nm) \<Longrightarrow> is_identifier_char c"
  by (auto simp: sanitizeServerName_def is_identifier_char_underscore)

lemma sanitizeServerName_fixed:
  "(\<forall>c\<in>set nm. is_identifier_char c) \<Longrightarrow> sanitizeServerName nm = nm"
  by (simp add: sanitizeServerName_def map_idI)

lemma sanitizeIdentifier_eq: "sanitizeIdentifier str = sanitizeServerName str"
  by (simp add: sanitizeIdentifier_def sanitizeServerName_def)

text \<open>
  C10. Sanitization is idempotent, for server names and for tool and resource names alike,
  and a string made only of characters in \<^verbatim>\<open>[A-Za-z0-9_]\<close> is returned unchanged.
\<close>

theorem sanitize_idempotent:
  "sanitizeServerName (sanitizeServerName s) = sanitizeServerName s \<and>
   sanitizeIdentifier (sanitizeIdentifier s) = sanitizeIdentifier s \<and>
   ((\<forall>c\<in>set s. is_identifier_char c) \<longrightarrow>
      sanitizeServerName s = s \<and> sanitizeIdentifier s = s)"
proof -
  have fixed: "sanitizeServerName t = t" if "\<forall>c\<in>set t. is_identifier_char c" for t
    using that by (rule sanitizeServerName_fixed)
  have "\<forall>c\<in>set (sanitizeServerName s). is_identifier_char c"
    by (simp add: sanitizeServerName_chars)
  then have "sanitizeServerName (sanitizeServerName s) = sanitizeServerName s"
    by (rule fixed)
  then show ?thesis
    by (simp add: sanitizeIdentifier_eq fixed)
qed

theorem sanitize_idempotent_witness:
  "sanitizeServerName ''my-server!'' = ''my_server_'' \<and>
   sanitizeServerName ''my_server_'' = ''my_server_'' \<and>
   sanitizeIdentifier ''read_File2'' = ''read_File2'' \<and>
   sanitizeServerName (sanitizeServerName ''my-server!'') = sanitizeServerName ''my-server!''"
  using sanitize_idempotent [of "''my-server!''"]
  by (simp add: sanitizeServerName_def sanitizeIdentifier_def is_identifier_char_def)

section \<open>Properties of the config validator\<close>

subsection \<open>When validation fails\<close>

lemma those_map_None: "those (map f xs) = None \<longleftrightarrow> (\<exists>x\<in>set xs. f x = None)"
  by (induction xs) (auto split: option.splits)

lemma as_string_None: "as_string x = None \<longleftrightarrow> \<not> is_string (Some x)"
  by (cases x) (simp_all add: is_string_def)

lemma is_string_iff: "is_string v \<longleftrightarrow> (\<exists>s. v = Some (JStr s))"
  by (auto simp: is_string_def split: option.splits json.splits)

lemma is_array_of_strings_iff:
  "is_array_of_strings v \<longleftrightarrow> (\<exists>xs. v = Some (JArr xs) \<and> those (map as_string xs) \<noteq> None)"
  by (auto simp: is_array_of_strings_def those_map_None as_string_None list_all_iff
      split: option.splits json.splits)

lemma is_object_of_strings_iff:
  "is_object_of_strings v \<longleftrightarrow> is_object v \<and> string_entries v \<noteq> None"
proof -
  have "(\<exists>p\<in>set (own_entries v). (case p of (k, x) \<Rightarrow> map_option (Pair k) (as_string x)) = None)
      \<longleftrightarrow> (\<exists>p\<in>set (own_entries v). \<not> (case p of (k, x) \<Rightarrow> is_string (Some x)))"
    by (intro bex_cong refl) (simp add: as_string_None split: prod.splits)
  then show ?thesis
    by (simp add: is_object_of_strings_def string_entries_def those_map_None list_all_iff)
qed

lemma is_array_of_string_objects_iff:
  "is_array_of_string_objects hv \<longleftrightarrow> header_records hv \<noteq> None"
  by (cases hv)
    (auto simp: header_records_def is_array_of_string_objects_def those_map_None
      is_object_of_strings_iff list_all_iff)

lemma validate_stdio_isl: "isl (validate_stdio sname e) \<longleftrightarrow> stdio_violation e"
  by (auto simp: validate_stdio_def stdio_violation_def is_string_iff is_array_of_strings_iff
      is_object_of_strings_iff split: option.splits json.splits)

lemma validate_http_isl: "isl (validate_http sname t e) \<longleftrightarrow> http_violation e"
  by (auto simp: validate_http_def http_violation_def is_string_iff
      is_array_of_string_objects_iff split: option.splits json.splits)

lemma validate_server_isl:
  "is_object e \<Longrightarrow> isl (validate_server sname e) \<longleftrightarrow> entry_violation (transport_field e) e"
  by (auto simp: validate_server_def entry_violation_def transport_field_def
      transport_or_default_def validate_stdio_isl validate_http_isl
      split: option.splits json.splits)

lemma validate_servers_isl:
  "isl (validate_servers es validated) \<longleftrightarrow>
     list_ex (\<lambda>(sname, e). \<not> is_bridge e \<and> entry_violation (transport_field e) e) es"
proof (induction es arbitrary: validated)
  case Nil
  show ?case by simp
next
  case (Cons p es)
  obtain sname e where p: "p = (sname, e)" by (cases p)
  show ?case
  proof (cases "is_bridge e")
    case True
    then show ?thesis by (simp add: p Cons.IH)
  next
    case False
    show ?thesis
    proof (cases "is_object e")
      case obj: True
      show ?thesis
        using False obj validate_server_isl [OF obj, of sname]
        by (cases "validate_server sname e") (simp_all add: p Cons.IH)
    next
      case nobj: False
      then show ?thesis using False by (simp add: p entry_violation_def)
    qed
  qed
qed

text \<open>Evaluation of the validator on concrete values.\<close>

lemmas validate_eval = validateMcpConfig_def get_prop_def is_bridge_def validate_server_def
  transport_or_default_def validate_stdio_def validate_http_def string_entries_def
  header_records_def sanitizeServerName_def is_identifier_char_def decimal.simps

lemmas violation_eval = stated_violation_def checked_violation_def config_violation_def
  entry_violation_def transport_field_def stdio_violation_def http_violation_def
  is_string_def is_array_of_strings_def is_object_of_strings_def
  is_array_of_string_objects_def get_prop_def is_bridge_def decimal.simps

text \<open>
  C4, as stated, fails on the code. An entry of the bridge server is skipped before any
  check, so \<^verbatim>\<open>{"mcpServers": {"bridge": {"command": "mcp-rpc-bridge"}}}\<close>, whose
  only entry is a stdio entry without \<^verbatim>\<open>args\<close>, is accepted. A transport field that
  holds \<^verbatim>\<open>null\<close> is present and is none of the three kinds, yet
  \<^verbatim>\<open>cfg.transport ?? "stdio"\<close> reads it as stdio and the entry is accepted.
\<close>

theorem validateMcpConfig_throws_iff_counterexample:
  "stated_violation
     (JObj [(''mcpServers'', JObj [(''bridge'', JObj [(''command'', JStr ''mcp-rpc-bridge'')])])]) \<and>
   validateMcpConfig
     (JObj [(''mcpServers'', JObj [(''bridge'', JObj [(''command'', JStr ''mcp-rpc-bridge'')])])])
     = Inr \<lparr>mcpServers = []\<rparr> \<and>
   stated_violation
     (JObj [(''mcpServers'', JObj [(''a'', JObj [(''transport'', JNull),
        (''command'', JStr ''true''), (''args'', JArr [])])])]) \<and>
   validateMcpConfig
     (JObj [(''mcpServers'', JObj [(''a'', JObj [(''transport'', JNull),
        (''command'', JStr ''true''), (''args'', JArr [])])])])
     = Inr \<lparr>mcpServers = [(''a'', \<lparr>transport = Some ''stdio'', command = Some ''true'',
         args = Some [], env = None, url = None, headers = None\<rparr>)]\<rparr>"
proof (intro conjI)
  show "stated_violation
     (JObj [(''mcpServers'', JObj [(''bridge'', JObj [(''command'', JStr ''mcp-rpc-bridge'')])])])"
    by (simp add: violation_eval)
  show "validateMcpConfig
     (JObj [(''mcpServers'', JObj [(''bridge'', JObj [(''command'', JStr ''mcp-rpc-bridge'')])])])
     = Inr \<lparr>mcpServers = []\<rparr>"
    by (simp add: validate_eval)
  show "stated_violation
     (JObj [(''mcpServers'', JObj [(''a'', JObj [(''transport'', JNull),
        (''command'', JStr ''true''), (''args'', JArr [])])])])"
    by (simp add: violation_eval)
  show "validateMcpConfig
     (JObj [(''mcpServers'', JObj [(''a'', JObj [(''transport'', JNull),
        (''command'', JStr ''true''), (''args'', JArr [])])])])
     = Inr \<lparr>mcpServers = [(''a'', \<lparr>transport = Some ''stdio'', command = Some ''true'',
         args = Some [], env = None, url = None, headers = None\<rparr>)]\<rparr>"
    by (simp add: validate_eval)
qed

text \<open>
  C4, amended. \<^verbatim>\<open>validateMcpConfig\<close> throws exactly when one of the listed violations
  holds of the top-level value or of an entry that is not an entry of the bridge server,
  where a transport field holding \<^verbatim>\<open>null\<close> counts as absent and an array counts as an
  object.
\<close>

theorem validateMcpConfig_throws_iff:
  "isl (validateMcpConfig config) \<longleftrightarrow> checked_violation config"
proof -
  have "isl (case validate_servers es [] of Inl e \<Rightarrow> Inl e
      | Inr validated \<Rightarrow> Inr \<lparr>mcpServers = validated\<rparr>) = isl (validate_servers es [])" for es
    by (cases "validate_servers es []") simp_all
  then show ?thesis
    by (simp add: validateMcpConfig_def checked_violation_def config_violation_def
        validate_servers_isl split: option.splits)
qed

theorem validateMcpConfig_throws_iff_witness:
  "checked_violation
     (JObj [(''mcpServers'', JObj [
        (''a'', JObj [(''command'', JStr ''true''), (''args'', JArr [])]),
        (''b'', JObj [(''url'', JStr ''http://localhost:1'')])])]) \<and>
   isl (validateMcpConfig
     (JObj [(''mcpServers'', JObj [
        (''a'', JObj [(''command'', JStr ''true''), (''args'', JArr [])]),
        (''b'', JObj [(''url'', JStr ''http://localhost:1'')])])])) \<and>
   \<not> checked_violation
     (JObj [(''mcpServers'', JObj [
        (''my-server!'', JObj [(''command'', JStr ''true''), (''args'', JArr [JStr ''x'']),
           (''env'', JArr [JStr ''v''])]),
        (''bridge'', JObj [(''command'', JStr ''mcp-rpc-bridge'')]),
        (''web'', JObj [(''transport'', JStr ''sse''), (''url'', JStr ''http://localhost:1''),
           (''headers'', JArr [JObj [(''k'', JStr ''v'')]])])])]) \<and>
   \<not> isl (validateMcpConfig
     (JObj [(''mcpServers'', JObj [
        (''my-server!'', JObj [(''command'', JStr ''true''), (''args'', JArr [JStr ''x'']),
           (''env'', JArr [JStr ''v''])]),
        (''bridge'', JObj [(''command'', JStr ''mcp-rpc-bridge'')]),
        (''web'', JObj [(''transport'', JStr ''sse''), (''url'', JStr ''http://localhost:1''),
           (''headers'', JArr [JObj [(''k'', JStr ''v'')]])])])]))"
proof -
  have bad: "checked_violation
     (JObj [(''mcpServers'', JObj [
        (''a'', JObj [(''command'', JStr ''true''), (''args'', JArr [])]),
        (''b'', JObj [(''url'', JStr ''http://localhost:1'')])])])"
    by (simp add: violation_eval)
  have good: "\<not> checked_violation
     (JObj [(''mcpServers'', JObj [
        (''my-server!'', JObj [(''command'', JStr ''true''), (''args'', JArr [JStr ''x'']),
           (''env'', JArr [JStr ''v''])]),
        (''bridge'', JObj [(''command'', JStr ''mcp-rpc-bridge'')]),
        (''web'', JObj [(''transport'', JStr ''sse''), (''url'', JStr ''http://localhost:1''),
           (''headers'', JArr [JObj [(''k'', JStr ''v'')]])])])])"
    by (simp add: violation_eval)
  show ?thesis
    using bad good
      validateMcpConfig_throws_iff [of "(JObj [(''mcpServers'', JObj [
        (''a'', JObj [(''command'', JStr ''true''), (''args'', JArr [])]),
        (''b'', JObj [(''url'', JStr ''http://localhost:1'')])])])"]
      validateMcpConfig_throws_iff [of "(JObj [(''mcpServers'', JObj [
        (''my-server!'', JObj [(''command'', JStr ''true''), (''args'', JArr [JStr ''x'']),
           (''env'', JArr [JStr ''v''])]),
        (''bridge'', JObj [(''command'', JStr ''mcp-rpc-bridge'')]),
        (''web'', JObj [(''transport'', JStr ''sse''), (''url'', JStr ''http://localhost:1''),
           (''headers'', JArr [JObj [(''k'', JStr ''v'')]])])])])"]
    by simp
qed

subsection \<open>What an accepted configuration holds\<close>

lemma set_map_set: "set (map_set k v al) \<subseteq> insert (k, v) (set al)"
  by (induction al) auto

lemma validate_stdio_command:
  "validate_stdio sname e = Inr v \<Longrightarrow>
     \<exists>cmd. command v = Some cmd \<and> get_prop e ''command'' = Some (JStr cmd)"
  by (auto simp: validate_stdio_def split: option.splits json.splits if_splits)

lemma validate_http_command: "validate_http sname t e = Inr v \<Longrightarrow> command v = None"
  by (auto simp: validate_http_def split: option.splits json.splits)

lemma validate_server_not_bridge:
  assumes "validate_server sname e = Inr v" and "is_object e" and "\<not> is_bridge e"
  shows "command v \<noteq> Some ''mcp-rpc-bridge''"
proof (cases "transport_or_default e = JStr ''stdio''")
  case True
  with assms(1) have "validate_stdio sname e = Inr v"
    by (simp add: validate_server_def)
  from validate_stdio_command [OF this] assms(2,3) show ?thesis
    by (auto simp: is_bridge_def)
next
  case False
  with assms(1) obtain t where "validate_http sname t e = Inr v"
    by (auto simp: validate_server_def split: json.splits if_splits)
  from validate_http_command [OF this] show ?thesis by simp
qed

lemma validate_servers_provenance:
  "validate_servers es validated = Inr out \<Longrightarrow> (k, v) \<in> set out \<Longrightarrow>
     (k, v) \<in> set validated \<or>
     (\<exists>(sname, e)\<in>set es. k = sanitizeServerName sname \<and> is_object e \<and>
        \<not> is_bridge e \<and> validate_server sname e = Inr v)"
proof (induction es arbitrary: validated)
  case Nil
  then show ?case by simp
next
  case (Cons p es)
  obtain sname e where p: "p = (sname, e)" by (cases p)
  show ?case
  proof (cases "is_bridge e")
    case True
    with Cons.prems have "validate_servers es validated = Inr out" by (simp add: p)
    from Cons.IH [OF this Cons.prems(2)] show ?thesis by auto
  next
    case False
    with Cons.prems(1) obtain vc where obj: "is_object e"
      and vc: "validate_server sname e = Inr vc"
      and rest: "validate_servers es (map_set (sanitizeServerName sname) vc validated) = Inr out"
      by (auto simp: p split: if_splits sum.splits)
    from Cons.IH [OF rest Cons.prems(2)] set_map_set [of "sanitizeServerName sname" vc validated]
    show ?thesis using False obj vc by (auto simp: p)
  qed
qed

lemma validate_servers_skip_bridge:
  "is_bridge e \<Longrightarrow>
     validate_servers (xs @ (sname, e) # ys) validated = validate_servers (xs @ ys) validated"
  by (induction xs arbitrary: validated) (auto split: sum.splits)

text \<open>
  C5. When \<^verbatim>\<open>validateMcpConfig\<close> accepts a configuration, every key of the returned
  mapping is made of characters in \<^verbatim>\<open>[A-Za-z0-9_]\<close>, no returned entry has the command
  \<^verbatim>\<open>mcp-rpc-bridge\<close>, and every returned entry is the validated form of an input entry
  that is not an entry of the bridge server, under its sanitized name. An entry of the
  bridge server is skipped without an error: the loop runs as if the entry were not there.
\<close>

theorem validateMcpConfig_sanitized_and_filtered:
  "(validateMcpConfig config = Inr out \<longrightarrow>
      (\<exists>servers. get_prop config ''mcpServers'' = Some servers \<and>
         (\<forall>(k, v)\<in>set (mcpServers out).
            (\<forall>c\<in>set k. is_identifier_char c) \<and>
            command v \<noteq> Some ''mcp-rpc-bridge'' \<and>
            (\<exists>(sname, e)\<in>set (own_entries servers).
               k = sanitizeServerName sname \<and> \<not> is_bridge e \<and>
               validate_server sname e = Inr v)))) \<and>
   (is_bridge e \<longrightarrow>
      validate_servers (xs @ (nm, e) # ys) validated = validate_servers (xs @ ys) validated)"
proof (intro conjI impI)
  assume ok: "validateMcpConfig config = Inr out"
  then obtain servers where servers: "get_prop config ''mcpServers'' = Some servers"
    and loop: "validate_servers (own_entries servers) [] = Inr (mcpServers out)"
    by (auto simp: validateMcpConfig_def split: if_splits option.splits sum.splits)
  have "(\<forall>c\<in>set k. is_identifier_char c) \<and> command v \<noteq> Some ''mcp-rpc-bridge'' \<and>
        (\<exists>(sname, e)\<in>set (own_entries servers).
           k = sanitizeServerName sname \<and> \<not> is_bridge e \<and>
           validate_server sname e = Inr v)"
    if kv: "(k, v) \<in> set (mcpServers out)" for k v
  proof -
    from validate_servers_provenance [OF loop kv]
    obtain sname e' where mem: "(sname, e') \<in> set (own_entries servers)"
      and k: "k = sanitizeServerName sname" and obj: "is_object e'"
      and nb: "\<not> is_bridge e'" and v: "validate_server sname e' = Inr v"
      by auto
    have "\<forall>c\<in>set k. is_identifier_char c"
      by (simp add: k sanitizeServerName_chars)
    moreover have "command v \<noteq> Some ''mcp-rpc-bridge''"
      by (rule validate_server_not_bridge [OF v obj nb])
    ultimately show ?thesis using mem k nb v by auto
  qed
  then show "\<exists>servers. get_prop config ''mcpServers'' = Some servers \<and>
         (\<forall>(k, v)\<in>set (mcpServers out).
            (\<forall>c\<in>set k. is_identifier_char c) \<and>
            command v \<noteq> Some ''mcp-rpc-bridge'' \<and>
            (\<exists>(sname, e)\<in>set (own_entries servers).
               k = sanitizeServerName sname \<and> \<not> is_bridge e \<and>
               validate_server sname e = Inr v))"
    using servers by auto
next
  assume "is_bridge e"
  then show "validate_servers (xs @ (nm, e) # ys) validated = validate_servers (xs @ ys) validated"
    by (rule validate_servers_skip_bridge)
qed

theorem validateMcpConfig_sanitized_and_filtered_witness:
  "validateMcpConfig
     (JObj [(''mcpServers'', JObj [
        (''my-server!'', JObj [(''command'', JStr ''true''), (''args'', JArr [JStr ''x'']),
           (''env'', JArr [JStr ''v''])]),
        (''bridge'', JObj [(''command'', JStr ''mcp-rpc-bridge'')]),
        (''web'', JObj [(''transport'', JStr ''sse''), (''url'', JStr ''http://localhost:1''),
           (''headers'', JArr [JObj [(''k'', JStr ''v'')]])])])])
     = Inr \<lparr>mcpServers =
        [(''my_server_'', \<lparr>transport = Some ''stdio'', command = Some ''true'',
            args = Some [''x''], env = Some [(''0'', ''v'')], url = None, headers = None\<rparr>),
         (''web'', \<lparr>transport = Some ''sse'', command = None, args = None, env = None,
            url = Some ''http://localhost:1'', headers = Some [[(''k'', ''v'')]]\<rparr>)]\<rparr> \<and>
   map fst (mcpServers \<lparr>mcpServers =
        [(''my_server_'', \<lparr>transport = Some ''stdio'', command = Some ''true'',
            args = Some [''x''], env = Some [(''0'', ''v'')], url = None, headers = None\<rparr>),
         (''web'', \<lparr>transport = Some ''sse'', command = None, args = None, env = None,
            url = Some ''http://localhost:1'', headers = Some [[(''k'', ''v'')]]\<rparr>)]\<rparr>) = [''my_server_'', ''web''] \<and>
   is_bridge (JObj [(''command'', JStr ''mcp-rpc-bridge'')])"
proof -
  have run: "validateMcpConfig
     (JObj [(''mcpServers'', JObj [
        (''my-server!'', JObj [(''command'', JStr ''true''), (''args'', JArr [JStr ''x'']),
           (''env'', JArr [JStr ''v''])]),
        (''bridge'', JObj [(''command'', JStr ''mcp-rpc-bridge'')]),
        (''web'', JObj [(''transport'', JStr ''sse''), (''url'', JStr ''http://localhost:1''),
           (''headers'', JArr [JObj [(''k'', JStr ''v'')]])])])])
     = Inr \<lparr>mcpServers =
        [(''my_server_'', \<lparr>transport = Some ''stdio'', command = Some ''true'',
            args = Some [''x''], env = Some [(''0'', ''v'')], url = None, headers = None\<rparr>),
         (''web'', \<lparr>transport = Some ''sse'', command = None, args = None, env = None,
            url = Some ''http://localhost:1'', headers = Some [[(''k'', ''v'')]]\<rparr>)]\<rparr>"
    by (simp add: validate_eval)
  have bridge: "is_bridge (JObj [(''command'', JStr ''mcp-rpc-bridge'')])"
    by (simp add: is_bridge_def get_prop_def)
  show ?thesis
    using run bridge
      validateMcpConfig_sanitized_and_filtered
        [of "(JObj [(''mcpServers'', JObj [
        (''my-server!'', JObj [(''command'', JStr ''true''), (''args'', JArr [JStr ''x'']),
           (''env'', JArr [JStr ''v''])]),
        (''bridge'', JObj [(''command'', JStr ''mcp-rpc-bridge'')]),
        (''web'', JObj [(''transport'', JStr ''sse''), (''url'', JStr ''http://localhost:1''),
           (''headers'', JArr [JObj [(''k'', JStr ''v'')]])])])])"
            "\<lparr>mcpServers =
        [(''my_server_'', \<lparr>transport = Some ''stdio'', command = Some ''true'',
            args = Some [''x''], env = Some [(''0'', ''v'')], url = None, headers = None\<rparr>),
         (''web'', \<lparr>transport = Some ''sse'', command = None, args = None, env = None,
            url = Some ''http://localhost:1'', headers = Some [[(''k'', ''v'')]]\<rparr>)]\<rparr>"
            "JObj [(''command'', JStr ''mcp-rpc-bridge'')]" "[]" "''bridge''" "[]" "[]"]
    by simp
qed

section \<open>Properties of the connection manager\<close>

subsection \<open>Tables\<close>

lemma map_of_map_set: "map_of (map_set k v al) = (map_of al)(k \<mapsto> v)"
  by (induction al) (auto simp: fun_eq_iff)

lemma keys_map_set: "fst ` set (map_set k v al) = insert k (fst ` set al)"
  by (induction al) auto

lemma open_session_fails_iff:
  "isl (open_session w sname config) \<longleftrightarrow>
     isl (select_transport w config) \<or>
     (\<exists>tr. select_transport w config = Inr tr \<and> isl (connect w sname tr))"
  by (cases "select_transport w config") (simp_all add: open_session_def)

text \<open>Evaluation of the manager on concrete values.\<close>

lemmas manager_eval = connectClient_def open_session_def select_transport_def spread_def
  getConnectionStatus_def getClient_def getConnectedServerNames_def new_McpClientManager_def
  reachable_world_def unreachable_world_def mixed_world_def

subsection \<open>A single connection attempt\<close>

text \<open>
  C2. \<^verbatim>\<open>connectClient\<close> never throws: its promise is fulfilled for every server name,
  configuration, manager and surroundings. When the choice or construction of the transport
  fails, or the handshake fails, the server's status is \<^verbatim>\<open>failed\<close> afterwards and the
  session table is as it was: no session is stored.
\<close>

theorem connectClient_never_throws:
  "\<exists>m'. connectClient w sname config m = Inr m' \<and>
     ((isl (select_transport w config) \<or>
       (\<exists>tr. select_transport w config = Inr tr \<and> isl (connect w sname tr))) \<longrightarrow>
      getConnectionStatus m' sname = Failed \<and> clients m' = clients m \<and>
      getClient m' sname = getClient m sname)"
proof (cases "open_session w sname config")
  case (Inl e)
  then show ?thesis
    by (simp add: connectClient_def getConnectionStatus_def getClient_def map_of_map_set)
next
  case (Inr client)
  then have "\<not> isl (open_session w sname config)" by simp
  then have "\<not> (isl (select_transport w config) \<or>
       (\<exists>tr. select_transport w config = Inr tr \<and> isl (connect w sname tr)))"
    using open_session_fails_iff [of w sname config] by blast
  then show ?thesis
    by (auto simp: connectClient_def Inr)
qed

theorem connectClient_never_throws_witness:
  "select_transport unreachable_world
       \<lparr>transport = Some ''sse'', command = None, args = None, env = None,
        url = Some ''http://localhost:1'', headers = None\<rparr>
     = Inr (SSEClientTransport ''http://localhost:1'') \<and>
   isl (connect unreachable_world ''b'' (SSEClientTransport ''http://localhost:1'')) \<and>
   connectClient unreachable_world ''b''
       \<lparr>transport = Some ''sse'', command = None, args = None, env = None,
        url = Some ''http://localhost:1'', headers = None\<rparr>
       new_McpClientManager
     = Inr \<lparr>clients = [], connectionStatus = [(''b'', Failed)]\<rparr> \<and>
   isl (select_transport reachable_world
       \<lparr>transport = Some ''websocket'', command = None, args = None, env = None,
        url = Some ''http://localhost:1'', headers = None\<rparr>) \<and>
   connectClient reachable_world ''c''
       \<lparr>transport = Some ''websocket'', command = None, args = None, env = None,
        url = Some ''http://localhost:1'', headers = None\<rparr>
       new_McpClientManager
     = Inr \<lparr>clients = [], connectionStatus = [(''c'', Failed)]\<rparr>"
  using connectClient_never_throws [of unreachable_world "''b''" "\<lparr>transport = Some ''sse'', command = None, args = None, env = None,
        url = Some ''http://localhost:1'', headers = None\<rparr>"
      new_McpClientManager]
    connectClient_never_throws [of reachable_world "''c''" "\<lparr>transport = Some ''websocket'', command = None, args = None, env = None,
        url = Some ''http://localhost:1'', headers = None\<rparr>"
      new_McpClientManager]
  by (simp add: manager_eval)

subsection \<open>Disconnecting\<close>

text \<open>
  C6. From any state, \<^verbatim>\<open>disconnectAll\<close> returns normally and leaves the session table
  and the status table empty; a second call in a row returns the same state; afterwards
  every name has status \<^verbatim>\<open>unknown\<close> and no session. The state may have no live session.
\<close>

theorem disconnectAll_idempotent:
  "\<exists>m1. disconnectAll m = Inr m1 \<and> clients m1 = [] \<and> connectionStatus m1 = [] \<and>
      disconnectAll m1 = Inr m1 \<and>
      run [DisconnectAll] m = m1 \<and> run [DisconnectAll, DisconnectAll] m = m1 \<and>
      (\<forall>nm. getConnectionStatus m1 nm = Unknown) \<and> (\<forall>nm. getClient m1 nm = None)"
  by (simp add: disconnectAll_def run_def getConnectionStatus_def getClient_def)

theorem disconnectAll_idempotent_witness:
  "disconnectAll
       \<lparr>clients = [(''a'', resources_failing_client)],
        connectionStatus = [(''a'', Connected), (''b'', Failed)]\<rparr>
     = Inr new_McpClientManager \<and>
   disconnectAll new_McpClientManager = Inr new_McpClientManager \<and>
   getConnectionStatus new_McpClientManager ''a'' = Unknown \<and>
   getConnectionStatus new_McpClientManager ''b'' = Unknown"
  using disconnectAll_idempotent
      [of "\<lparr>clients = [(''a'', resources_failing_client)],
            connectionStatus = [(''a'', Connected), (''b'', Failed)]\<rparr>"]
    disconnectAll_idempotent [of new_McpClientManager]
  by (simp add: disconnectAll_def new_McpClientManager_def getConnectionStatus_def)

subsection \<open>Starting and resuming connection attempts\<close>

lemma map_set_fresh: "k \<notin> fst ` set al \<Longrightarrow> map_set k v al = al @ [(k, v)]"
  by (induction al) auto

lemma start_all_fst_snd:
  "start_all w (p # rest) m =
     (fst (start_all w rest (fst (connectClient_start w (fst p) (snd p) m))),
      (case snd (connectClient_start w (fst p) (snd p) m) of None \<Rightarrow> [] | Some x \<Rightarrow> [x]) @
        snd (start_all w rest (fst (connectClient_start w (fst p) (snd p) m))))"
  by (cases p) (simp split: prod.splits option.splits)

text \<open>The task an entry leaves pending, if any.\<close>

lemma start_all_pending:
  "snd (start_all w configs m) =
     concat (map (\<lambda>p. case select_transport w (snd p) of Inl e \<Rightarrow> [] | Inr tr \<Rightarrow> [(fst p, tr)])
       configs)"
proof (induction configs arbitrary: m)
  case Nil
  show ?case by simp
next
  case (Cons p configs)
  show ?case
    unfolding start_all_fst_snd
    by (cases "select_transport w (snd p)") (simp_all add: Cons.IH connectClient_start_def)
qed

lemma pending_tasks_eq:
  "pending_tasks w configs =
     concat (map (\<lambda>p. case select_transport w (snd p) of Inl e \<Rightarrow> [] | Inr tr \<Rightarrow> [(fst p, tr)])
       configs)"
  by (simp add: pending_tasks_def start_all_pending)

lemma pending_names_eq:
  "map fst (pending_tasks w configs) =
     map fst (filter (\<lambda>p. \<not> isl (select_transport w (snd p))) configs)"
  unfolding pending_tasks_eq by (induction configs) (auto split: sum.splits)

lemma pending_names: "fst ` set (pending_tasks w configs) \<subseteq> fst ` set configs"
proof -
  have "fst ` set (pending_tasks w configs) = set (map fst (pending_tasks w configs))"
    by simp
  also have "\<dots> \<subseteq> set (map fst configs)"
    unfolding pending_names_eq by auto
  finally show ?thesis by simp
qed

lemma attempt_status_sync:
  "isl (select_transport w (snd p)) \<Longrightarrow> attempt_status w p = Failed"
  by (cases "select_transport w (snd p)")
    (simp_all add: attempt_status_def attempt_succeeds_def open_session_def)

lemma attempt_succeeds_task:
  "select_transport w (snd p) = Inr tr \<Longrightarrow> attempt_succeeds w p \<longleftrightarrow> \<not> isl (connect w (fst p) tr)"
  by (simp add: attempt_succeeds_def open_session_def)

lemma attempt_succeeds_sync:
  "select_transport w (snd p) = Inl e \<Longrightarrow> \<not> attempt_succeeds w p"
  by (simp add: attempt_succeeds_def open_session_def)

lemma pending_outcomes:
  "map (\<lambda>t. (fst t, if isl (connect w (fst t) (snd t)) then Failed else Connected))
       (pending_tasks w configs) =
   map (\<lambda>p. (fst p, attempt_status w p))
       (filter (\<lambda>p. \<not> isl (select_transport w (snd p))) configs)"
  unfolding pending_tasks_eq
proof (induction configs)
  case Nil
  show ?case by simp
next
  case (Cons p configs)
  show ?case
    by (cases "select_transport w (snd p)")
      (simp_all add: Cons.IH attempt_status_def attempt_succeeds_task)
qed

lemma pending_successes:
  "length (filter (\<lambda>t. \<not> isl (connect w (fst t) (snd t))) (pending_tasks w configs)) =
   length (filter (attempt_succeeds w) configs)"
  unfolding pending_tasks_eq
proof (induction configs)
  case Nil
  show ?case by simp
next
  case (Cons p configs)
  show ?case
    by (cases "select_transport w (snd p)")
      (simp_all add: Cons.IH attempt_succeeds_task attempt_succeeds_sync)
qed

lemma start_all_state:
  assumes "distinct (map fst configs)"
    and "fst ` set configs \<inter> fst ` set (connectionStatus m) = {}"
  shows "clients (fst (start_all w configs m)) = clients m \<and>
     mset (connectionStatus (fst (start_all w configs m))) =
       mset (connectionStatus m) +
       mset (map (\<lambda>p. (fst p, attempt_status w p))
              (filter (\<lambda>p. isl (select_transport w (snd p))) configs))"
  using assms
proof (induction configs arbitrary: m)
  case Nil
  show ?case by simp
next
  case (Cons p configs)
  from Cons.prems have fresh: "fst p \<notin> fst ` set (connectionStatus m)"
    and dist: "distinct (map fst configs)" and notin: "fst p \<notin> fst ` set configs"
    and disj: "fst ` set configs \<inter> fst ` set (connectionStatus m) = {}"
    by auto
  show ?case
  proof (cases "select_transport w (snd p)")
    case (Inl e)
    let ?m1 = "m\<lparr>connectionStatus := map_set (fst p) Failed (connectionStatus m)\<rparr>"
    have start: "connectClient_start w (fst p) (snd p) m = (?m1, None)"
      by (simp add: connectClient_start_def Inl)
    have "fst ` set configs \<inter> fst ` set (connectionStatus ?m1) = {}"
      using disj notin by (simp add: keys_map_set)
    from Cons.IH [OF dist this] show ?thesis
      unfolding start_all_fst_snd start
      by (simp add: Inl attempt_status_sync map_set_fresh [OF fresh])
  next
    case (Inr tr)
    have start: "connectClient_start w (fst p) (snd p) m = (m, Some (fst p, tr))"
      by (simp add: connectClient_start_def Inr)
    from Cons.IH [OF dist disj] show ?thesis
      unfolding start_all_fst_snd start by (simp add: Inr)
  qed
qed

lemma resume_state:
  assumes "distinct (map fst order)"
    and "fst ` set order \<inter> fst ` set (connectionStatus m) = {}"
    and "fst ` set order \<inter> fst ` set (clients m) = {}"
  shows "mset (connectionStatus (fold (connectClient_resume w) order m)) =
       mset (connectionStatus m) +
       mset (map (\<lambda>t. (fst t, if isl (connect w (fst t) (snd t)) then Failed else Connected)) order) \<and>
     length (clients (fold (connectClient_resume w) order m)) =
       length (clients m) + length (filter (\<lambda>t. \<not> isl (connect w (fst t) (snd t))) order)"
  using assms
proof (induction order arbitrary: m)
  case Nil
  show ?case by simp
next
  case (Cons t order)
  let ?m1 = "connectClient_resume w t m"
  from Cons.prems have fresh: "fst t \<notin> fst ` set (connectionStatus m)"
    and freshc: "fst t \<notin> fst ` set (clients m)"
    and dist: "distinct (map fst order)" and notin: "fst t \<notin> fst ` set order"
    and disj: "fst ` set order \<inter> fst ` set (connectionStatus m) = {}"
    and disjc: "fst ` set order \<inter> fst ` set (clients m) = {}"
    by auto
  have keys: "fst ` set (connectionStatus ?m1) = insert (fst t) (fst ` set (connectionStatus m))"
    by (cases "connect w (fst t) (snd t)") (simp_all add: connectClient_resume_def keys_map_set)
  have keysc: "fst ` set (clients ?m1) =
      (if isl (connect w (fst t) (snd t)) then fst ` set (clients m)
       else insert (fst t) (fst ` set (clients m)))"
    by (cases "connect w (fst t) (snd t)") (simp_all add: connectClient_resume_def keys_map_set)
  have d1: "fst ` set order \<inter> fst ` set (connectionStatus ?m1) = {}"
    using disj notin by (simp add: keys)
  have d2: "fst ` set order \<inter> fst ` set (clients ?m1) = {}"
    using disjc notin by (simp add: keysc)
  have step: "mset (connectionStatus ?m1) =
      add_mset (fst t, if isl (connect w (fst t) (snd t)) then Failed else Connected)
        (mset (connectionStatus m)) \<and>
      length (clients ?m1) =
        length (clients m) + (if isl (connect w (fst t) (snd t)) then 0 else 1)"
    by (cases "connect w (fst t) (snd t)")
      (simp_all add: connectClient_resume_def map_set_fresh [OF fresh] map_set_fresh [OF freshc])
  from Cons.IH [OF dist d1 d2] step show ?case by simp
qed

lemma length_filter_mset_cong:
  "mset xs = mset ys \<Longrightarrow> length (filter P xs) = length (filter P ys)"
proof -
  assume "mset xs = mset ys"
  then have "size (filter_mset P (mset xs)) = size (filter_mset P (mset ys))" by simp
  then show ?thesis by (simp only: mset_filter [symmetric] size_mset)
qed

lemma map_mset_cong: "mset xs = mset ys \<Longrightarrow> mset (map f xs) = mset (map f ys)"
proof -
  assume "mset xs = mset ys"
  then have "image_mset f (mset xs) = image_mset f (mset ys)" by simp
  then show ?thesis by (simp only: mset_map [symmetric])
qed

lemma keys_map_fst: "fst ` set (map (\<lambda>p. (fst p, f p)) xs) = fst ` set xs"
  by (induction xs) auto

lemma mset_split_filter: "mset (map f (filter P xs)) + mset (map f (filter (\<lambda>x. \<not> P x) xs)) = mset (map f xs)"
  by (induction xs) auto

text \<open>A call awaited on its own is its start followed at once by its resumption.\<close>

lemma connectClient_start_resume:
  "connectClient w sname config m =
     Inr (case connectClient_start w sname config m of
            (m1, None) \<Rightarrow> m1
          | (m1, Some t) \<Rightarrow> connectClient_resume w t m1)"
  by (cases "select_transport w config")
    (simp_all add: connectClient_def connectClient_start_def connectClient_resume_def
      open_session_def split: sum.splits)

subsection \<open>Initializing a batch\<close>

lemma initializeClients_fst:
  "fst (initializeClients w order configs m) =
     fold (connectClient_resume w) order (fst (start_all w configs m))"
  by (simp add: initializeClients_def Let_def split: prod.splits)

lemma initializeClients_tables:
  assumes dist: "distinct (map fst configs)"
    and perm: "mset order = mset (pending_tasks w configs)"
  shows "mset (connectionStatus (fst (initializeClients w order configs new_McpClientManager))) =
       mset (map (\<lambda>p. (fst p, attempt_status w p)) configs) \<and>
     length (clients (fst (initializeClients w order configs new_McpClientManager))) =
       length (filter (attempt_succeeds w) configs)"
proof -
  let ?h = "\<lambda>p. (fst p, attempt_status w p)"
  let ?g = "\<lambda>t. (fst t, if isl (connect w (fst t) (snd t)) then Failed else Connected)"
  let ?bad = "\<lambda>p. isl (select_transport w (snd p))"
  let ?m1 = "fst (start_all w configs new_McpClientManager)"
  have "fst ` set configs \<inter> fst ` set (connectionStatus new_McpClientManager) = {}"
    by (simp add: new_McpClientManager_def)
  from start_all_state [OF dist this, of w]
  have m1c: "clients ?m1 = []"
    and m1s: "mset (connectionStatus ?m1) = mset (map ?h (filter ?bad configs))"
    by (simp_all add: new_McpClientManager_def)
  have names: "mset (map fst order) = mset (map fst (filter (\<lambda>p. \<not> ?bad p) configs))"
    using map_mset_cong [OF perm, of fst] by (simp only: pending_names_eq)
  have "distinct (map fst (filter (\<lambda>p. \<not> ?bad p) configs))"
    using dist by (rule distinct_map_filter)
  then have dorder: "distinct (map fst order)"
    using mset_eq_imp_distinct_iff [OF names] by simp
  have "set (map fst order) = set (map fst (filter (\<lambda>p. \<not> ?bad p) configs))"
    using names by (rule mset_eq_setD)
  then have korder: "fst ` set order = fst ` set (filter (\<lambda>p. \<not> ?bad p) configs)"
    by simp
  have "set (connectionStatus ?m1) = set (map ?h (filter ?bad configs))"
    using m1s by (rule mset_eq_setD)
  then have kbad: "fst ` set (connectionStatus ?m1) = fst ` set (filter ?bad configs)"
    by (simp only: keys_map_fst)
  have disj: "fst ` set order \<inter> fst ` set (connectionStatus ?m1) = {}"
  proof -
    have False if a: "nm \<in> fst ` set (filter (\<lambda>p. \<not> ?bad p) configs)"
      and b: "nm \<in> fst ` set (filter ?bad configs)" for nm
    proof -
      from a obtain c1 where c1: "(nm, c1) \<in> set configs" "\<not> isl (select_transport w c1)"
        by auto
      from b obtain c2 where c2: "(nm, c2) \<in> set configs" "isl (select_transport w c2)"
        by auto
      from dist c1(1) c2(1) have "c1 = c2" by (rule eq_key_imp_eq_value)
      with c1(2) c2(2) show False by simp
    qed
    then have "fst ` set (filter (\<lambda>p. \<not> ?bad p) configs) \<inter> fst ` set (filter ?bad configs) = {}"
      by (meson disjoint_iff)
    then show ?thesis by (simp only: korder kbad)
  qed
  have disjc: "fst ` set order \<inter> fst ` set (clients ?m1) = {}"
    by (simp add: m1c)
  have "mset (map ?g order) = mset (map ?g (pending_tasks w configs))"
    using perm by (rule map_mset_cong)
  then have outcomes: "mset (map ?g order) = mset (map ?h (filter (\<lambda>p. \<not> ?bad p) configs))"
    by (simp only: pending_outcomes)
  have succ: "length (filter (\<lambda>t. \<not> isl (connect w (fst t) (snd t))) order) =
      length (filter (attempt_succeeds w) configs)"
    using length_filter_mset_cong [OF perm] by (simp only: pending_successes)
  from resume_state [OF dorder disj disjc, of w]
  have "mset (connectionStatus (fold (connectClient_resume w) order ?m1)) =
      mset (map ?h (filter ?bad configs)) + mset (map ?h (filter (\<lambda>p. \<not> ?bad p) configs))"
    and "length (clients (fold (connectClient_resume w) order ?m1)) =
      length (filter (attempt_succeeds w) configs)"
    by (simp_all only: m1s m1c outcomes succ list.size add_0)
  then show ?thesis
    by (simp only: initializeClients_fst mset_split_filter)
qed

lemma count_status:
  "length (filter (\<lambda>p. snd p = s) (map (\<lambda>p. (fst p, f p)) xs)) = length (filter (\<lambda>p. f p = s) xs)"
  by (induction xs) auto

lemma filter_snd: "filter (\<lambda>(nm, s). P s) xs = filter (\<lambda>p. P (snd p)) xs"
  by (simp add: case_prod_unfold)

lemma count_failed:
  "length (filter (\<lambda>p. attempt_status w p = Failed) xs) =
     length xs - length (filter (attempt_succeeds w) xs)"
  by (induction xs) (auto simp: attempt_status_def Suc_diff_le)

lemma count_connected:
  "length (filter (\<lambda>p. attempt_status w p = Connected) xs) =
     length (filter (attempt_succeeds w) xs)"
  by (induction xs) (auto simp: attempt_status_def)

lemmas batch_eval = manager_eval true_stdio_def local_sse_def websocket_def
  initializeClients_def pending_tasks_def connectClient_start_def connectClient_resume_def
  run_def Let_def attempt_succeeds_def attempt_status_def disconnectAll_def idle_client_def

text \<open>
  C1. Let \<^verbatim>\<open>initializeClients\<close> be called on a new manager with the \<open>N\<close> entries of a
  configuration record (their names are distinct), and let the pending handshakes settle
  in any order. With \<open>K\<close> the number of entries whose attempt succeeds, the status table
  then holds \<open>K\<close> entries with status \<^verbatim>\<open>connected\<close>, \<open>N - K\<close> with status
  \<^verbatim>\<open>failed\<close> and \<open>N\<close> in all, \<^verbatim>\<open>getConnectedServerNames\<close> has length \<open>K\<close>, the
  logged summary has the same counts, and every server has the status of its own attempt,
  whatever happened to the others.
\<close>

theorem initializeClients_counts:
  assumes dist: "distinct (map fst configs)"
    and perm: "mset order = mset (pending_tasks w configs)"
    and run: "initializeClients w order configs new_McpClientManager = (m', connected, failed)"
  shows "length (filter (\<lambda>(nm, s). s = Connected) (connectionStatus m')) =
           length (filter (attempt_succeeds w) configs) \<and>
         length (filter (\<lambda>(nm, s). s = Failed) (connectionStatus m')) =
           length configs - length (filter (attempt_succeeds w) configs) \<and>
         length (connectionStatus m') = length configs \<and>
         length (getConnectedServerNames m') = length (filter (attempt_succeeds w) configs) \<and>
         length connected = length (filter (attempt_succeeds w) configs) \<and>
         length failed = length configs - length (filter (attempt_succeeds w) configs) \<and>
         (\<forall>entry\<in>set configs. getConnectionStatus m' (fst entry) = attempt_status w entry)"
proof -
  let ?h = "\<lambda>p. (fst p, attempt_status w p)"
  from run have m': "m' = fst (initializeClients w order configs new_McpClientManager)"
    by simp
  from initializeClients_tables [OF dist perm]
  have st: "mset (connectionStatus m') = mset (map ?h configs)"
    and cl: "length (clients m') = length (filter (attempt_succeeds w) configs)"
    by (simp_all only: m')
  have conn: "length (filter (\<lambda>(nm, s). s = Connected) (connectionStatus m')) =
      length (filter (attempt_succeeds w) configs)"
    using length_filter_mset_cong [OF st, of "\<lambda>p. snd p = Connected"]
    by (simp only: filter_snd count_status count_connected)
  have fail: "length (filter (\<lambda>(nm, s). s = Failed) (connectionStatus m')) =
      length configs - length (filter (attempt_succeeds w) configs)"
    using length_filter_mset_cong [OF st, of "\<lambda>p. snd p = Failed"]
    by (simp only: filter_snd count_status count_failed)
  have total: "length (connectionStatus m') = length configs"
    using mset_eq_length [OF st] by simp
  have names: "length (getConnectedServerNames m') = length (filter (attempt_succeeds w) configs)"
    by (simp add: getConnectedServerNames_def cl)
  from run have connected: "connected = getConnectedServerNames m'"
    and failed: "failed = map fst (filter (\<lambda>(nm, s). s = Failed) (connectionStatus m'))"
    by (auto simp: initializeClients_def Let_def split: prod.splits)
  have each: "getConnectionStatus m' (fst entry) = attempt_status w entry"
    if "entry \<in> set configs" for entry
  proof -
    have "mset (map fst (connectionStatus m')) = mset (map fst (map ?h configs))"
      using st by (rule map_mset_cong)
    then have "mset (map fst (connectionStatus m')) = mset (map fst configs)"
      by (simp add: comp_def)
    from mset_eq_imp_distinct_iff [OF this] dist
    have d: "distinct (map fst (connectionStatus m'))" by simp
    have "set (connectionStatus m') = set (map ?h configs)"
      using st by (rule mset_eq_setD)
    with that have "(fst entry, attempt_status w entry) \<in> set (connectionStatus m')"
      by simp
    with d have "map_of (connectionStatus m') (fst entry) = Some (attempt_status w entry)"
      by simp
    then show ?thesis by (simp add: getConnectionStatus_def)
  qed
  show ?thesis
    using conn fail total names each by (simp add: connected failed)
qed

theorem initializeClients_counts_witness:
  "distinct (map fst [(''a'', true_stdio), (''b'', local_sse), (''c'', true_stdio), (''d'', websocket)]) \<and>
   mset [(''c'', StdioClientTransport ''true'' [] []),
      (''b'', SSEClientTransport ''http://localhost:1''),
      (''a'', StdioClientTransport ''true'' [] [])] =
     mset (pending_tasks mixed_world [(''a'', true_stdio), (''b'', local_sse), (''c'', true_stdio), (''d'', websocket)]) \<and>
   initializeClients mixed_world
     [(''c'', StdioClientTransport ''true'' [] []),
      (''b'', SSEClientTransport ''http://localhost:1''),
      (''a'', StdioClientTransport ''true'' [] [])]
     [(''a'', true_stdio), (''b'', local_sse), (''c'', true_stdio), (''d'', websocket)] new_McpClientManager
     = (\<lparr>clients = [(''c'', idle_client), (''a'', idle_client)],
       connectionStatus =
         [(''d'', Failed), (''c'', Connected), (''b'', Failed), (''a'', Connected)]\<rparr>,
        [''c'', ''a''], [''d'', ''b'']) \<and>
   length (filter (attempt_succeeds mixed_world) [(''a'', true_stdio), (''b'', local_sse), (''c'', true_stdio), (''d'', websocket)]) = 2 \<and>
   length (filter (\<lambda>(nm, s). s = Connected) (connectionStatus
      \<lparr>clients = [(''c'', idle_client), (''a'', idle_client)],
       connectionStatus =
         [(''d'', Failed), (''c'', Connected), (''b'', Failed), (''a'', Connected)]\<rparr>)) = 2 \<and>
   length (filter (\<lambda>(nm, s). s = Failed) (connectionStatus
      \<lparr>clients = [(''c'', idle_client), (''a'', idle_client)],
       connectionStatus =
         [(''d'', Failed), (''c'', Connected), (''b'', Failed), (''a'', Connected)]\<rparr>)) = 4 - 2"
proof -
  have d: "distinct (map fst [(''a'', true_stdio), (''b'', local_sse), (''c'', true_stdio), (''d'', websocket)])"
    by simp
  have pending: "pending_tasks mixed_world [(''a'', true_stdio), (''b'', local_sse), (''c'', true_stdio), (''d'', websocket)] =
     [(''a'', StdioClientTransport ''true'' [] []),
      (''b'', SSEClientTransport ''http://localhost:1''),
      (''c'', StdioClientTransport ''true'' [] [])]"
    by (simp add: batch_eval)
  have perm: "mset [(''c'', StdioClientTransport ''true'' [] []),
      (''b'', SSEClientTransport ''http://localhost:1''),
      (''a'', StdioClientTransport ''true'' [] [])] =
     mset (pending_tasks mixed_world [(''a'', true_stdio), (''b'', local_sse), (''c'', true_stdio), (''d'', websocket)])"
    by (simp add: pending)
  have run: "initializeClients mixed_world
     [(''c'', StdioClientTransport ''true'' [] []),
      (''b'', SSEClientTransport ''http://localhost:1''),
      (''a'', StdioClientTransport ''true'' [] [])]
     [(''a'', true_stdio), (''b'', local_sse), (''c'', true_stdio), (''d'', websocket)] new_McpClientManager
     = (\<lparr>clients = [(''c'', idle_client), (''a'', idle_client)],
       connectionStatus =
         [(''d'', Failed), (''c'', Connected), (''b'', Failed), (''a'', Connected)]\<rparr>,
        [''c'', ''a''], [''d'', ''b''])"
    by (simp add: batch_eval)
  have k: "length (filter (attempt_succeeds mixed_world) [(''a'', true_stdio), (''b'', local_sse), (''c'', true_stdio), (''d'', websocket)]) = 2"
    by (simp add: batch_eval)
  show ?thesis
    using d perm run k initializeClients_counts [OF d perm run] by simp
qed

subsection \<open>What changes a status\<close>

lemma status_map_set_other:
  "k \<noteq> nm \<Longrightarrow> map_of (map_set k v al) nm = map_of al nm"
  by (simp add: map_of_map_set)

lemma status_resume_other:
  "fst t \<noteq> nm \<Longrightarrow>
     getConnectionStatus (connectClient_resume w t m) nm = getConnectionStatus m nm"
  by (cases "connect w (fst t) (snd t)")
    (simp_all add: connectClient_resume_def getConnectionStatus_def status_map_set_other)

lemma status_fold_resume_other:
  "nm \<notin> fst ` set order \<Longrightarrow>
     getConnectionStatus (fold (connectClient_resume w) order m) nm = getConnectionStatus m nm"
proof (induction order arbitrary: m)
  case Nil
  show ?case by simp
next
  case (Cons t order)
  from Cons.prems have "fst t \<noteq> nm" and "nm \<notin> fst ` set order" by auto
  then show ?case by (simp add: Cons.IH status_resume_other)
qed

lemma status_start_other:
  "sname \<noteq> nm \<Longrightarrow>
     getConnectionStatus (fst (connectClient_start w sname c m)) nm = getConnectionStatus m nm"
  by (cases "select_transport w c")
    (simp_all add: connectClient_start_def getConnectionStatus_def status_map_set_other)

lemma status_start_all_other:
  "nm \<notin> fst ` set configs \<Longrightarrow>
     getConnectionStatus (fst (start_all w configs m)) nm = getConnectionStatus m nm"
proof (induction configs arbitrary: m)
  case Nil
  show ?case by simp
next
  case (Cons p configs)
  from Cons.prems have "fst p \<noteq> nm" and "nm \<notin> fst ` set configs" by auto
  then show ?case
    unfolding start_all_fst_snd by (simp add: Cons.IH status_start_other)
qed

lemma status_initializeClients_other:
  assumes "mset order = mset (pending_tasks w configs)" and "nm \<notin> fst ` set configs"
  shows "getConnectionStatus (fst (initializeClients w order configs m)) nm =
           getConnectionStatus m nm"
proof -
  have "set order = set (pending_tasks w configs)"
    using assms(1) by (rule mset_eq_setD)
  with pending_names [of w configs] assms(2) have "nm \<notin> fst ` set order" by auto
  then show ?thesis
    by (simp add: initializeClients_fst status_fold_resume_other
        status_start_all_other [OF assms(2)])
qed

lemma status_connectClient_other:
  "sname \<noteq> nm \<Longrightarrow>
     getConnectionStatus (perform (ConnectClient w sname c) m) nm = getConnectionStatus m nm"
  by (cases "open_session w sname c")
    (simp_all add: connectClient_def getConnectionStatus_def status_map_set_other)

lemma status_connectClient_own:
  "getConnectionStatus (perform (ConnectClient w nm c) m) nm = attempt_status w (nm, c)"
  by (cases "open_session w nm c")
    (simp_all add: connectClient_def getConnectionStatus_def map_of_map_set attempt_status_def
      attempt_succeeds_def)

lemma status_perform_other:
  assumes "well_scheduled op" and "op \<noteq> DisconnectAll" and "nm \<notin> attempted op"
  shows "getConnectionStatus (perform op m) nm = getConnectionStatus m nm"
proof (cases op)
  case (InitializeClients w order configs)
  with assms show ?thesis by (simp add: status_initializeClients_other)
next
  case (ConnectClient w sname c)
  with assms(3) have "sname \<noteq> nm" by simp
  then show ?thesis unfolding ConnectClient by (rule status_connectClient_other)
next
  case DisconnectAll
  with assms(2) show ?thesis by simp
qed simp_all

lemma status_run_other:
  "\<forall>op\<in>set ops. well_scheduled op \<and> op \<noteq> DisconnectAll \<and> nm \<notin> attempted op \<Longrightarrow>
     getConnectionStatus (run ops m) nm = getConnectionStatus m nm"
  unfolding run_def
proof (induction ops arbitrary: m)
  case Nil
  show ?case by simp
next
  case (Cons op ops)
  then show ?case by (simp add: status_perform_other)
qed

text \<open>
  C3, as stated, fails on the code: \<^verbatim>\<open>connectClient\<close> sets the status of its server name
  whatever it was before. A second attempt for a connected server that fails moves it to
  \<^verbatim>\<open>failed\<close>, and a second attempt for a failed server that succeeds moves it to
  \<^verbatim>\<open>connected\<close>, with no disconnect in between.
\<close>

theorem status_changes_only_by_disconnect_counterexample:
  "getConnectionStatus
     (run [ConnectClient reachable_world ''a'' true_stdio] new_McpClientManager) ''a''
     = Connected \<and>
   getConnectionStatus
     (run [ConnectClient reachable_world ''a'' true_stdio,
           ConnectClient unreachable_world ''a'' true_stdio] new_McpClientManager) ''a''
     = Failed \<and>
   getConnectionStatus
     (run [ConnectClient unreachable_world ''a'' true_stdio] new_McpClientManager) ''a''
     = Failed \<and>
   getConnectionStatus
     (run [ConnectClient unreachable_world ''a'' true_stdio,
           ConnectClient reachable_world ''a'' true_stdio] new_McpClientManager) ''a''
     = Connected"
  by (simp add: batch_eval)

text \<open>
  C3, amended. The status of a server name changes only through \<^verbatim>\<open>disconnectAll\<close>,
  after which it is \<^verbatim>\<open>unknown\<close>, or through a connection attempt for that same name:
  a sequence of operations without \<^verbatim>\<open>disconnectAll\<close> and without an attempt for the name
  leaves its status as it was, and \<^verbatim>\<open>connectClient\<close> for the name sets the status of
  that attempt, whatever the status was before.
\<close>

theorem status_changes_only_by_disconnect_or_attempt:
  "((\<forall>op\<in>set ops. well_scheduled op \<and> op \<noteq> DisconnectAll \<and> nm \<notin> attempted op) \<longrightarrow>
      getConnectionStatus (run ops m) nm = getConnectionStatus m nm) \<and>
   getConnectionStatus (perform DisconnectAll m) nm = Unknown \<and>
   getConnectionStatus (perform (ConnectClient w nm config) m) nm = attempt_status w (nm, config)"
proof (intro conjI impI)
  assume "\<forall>op\<in>set ops. well_scheduled op \<and> op \<noteq> DisconnectAll \<and> nm \<notin> attempted op"
  then show "getConnectionStatus (run ops m) nm = getConnectionStatus m nm"
    by (rule status_run_other)
next
  show "getConnectionStatus (perform DisconnectAll m) nm = Unknown"
    by (simp add: disconnectAll_def getConnectionStatus_def)
next
  show "getConnectionStatus (perform (ConnectClient w nm config) m) nm =
      attempt_status w (nm, config)"
    by (rule status_connectClient_own)
qed

theorem status_changes_only_by_disconnect_or_attempt_witness:
  "getConnectionStatus
     (run [ConnectClient unreachable_world ''b'' true_stdio, GetConnectedServerNames,
      InitializeClients mixed_world
        [(''d'', SSEClientTransport ''http://localhost:1''),
         (''c'', StdioClientTransport ''true'' [] [])]
        [(''c'', true_stdio), (''d'', local_sse), (''e'', websocket)],
      GetConnectionStatus ''a'']
        \<lparr>clients = [(''a'', idle_client)], connectionStatus = [(''a'', Connected), (''z'', Failed)]\<rparr>) ''a''
     = Connected \<and>
   getConnectionStatus
     (run [ConnectClient unreachable_world ''b'' true_stdio, GetConnectedServerNames,
      InitializeClients mixed_world
        [(''d'', SSEClientTransport ''http://localhost:1''),
         (''c'', StdioClientTransport ''true'' [] [])]
        [(''c'', true_stdio), (''d'', local_sse), (''e'', websocket)],
      GetConnectionStatus ''a'']
        \<lparr>clients = [(''a'', idle_client)], connectionStatus = [(''a'', Connected), (''z'', Failed)]\<rparr>) ''z''
     = Failed \<and>
   getConnectionStatus (perform DisconnectAll
        \<lparr>clients = [(''a'', idle_client)], connectionStatus = [(''a'', Connected), (''z'', Failed)]\<rparr>) ''a''
     = Unknown \<and>
   getConnectionStatus (perform (ConnectClient unreachable_world ''a'' true_stdio)
        \<lparr>clients = [(''a'', idle_client)], connectionStatus = [(''a'', Connected), (''z'', Failed)]\<rparr>) ''a''
     = Failed"
proof -
  have pending: "pending_tasks mixed_world
       [(''c'', true_stdio), (''d'', local_sse), (''e'', websocket)] =
     [(''c'', StdioClientTransport ''true'' [] []),
      (''d'', SSEClientTransport ''http://localhost:1'')]"
    by (simp add: batch_eval)
  have a: "\<forall>op\<in>set [ConnectClient unreachable_world ''b'' true_stdio, GetConnectedServerNames,
      InitializeClients mixed_world
        [(''d'', SSEClientTransport ''http://localhost:1''),
         (''c'', StdioClientTransport ''true'' [] [])]
        [(''c'', true_stdio), (''d'', local_sse), (''e'', websocket)],
      GetConnectionStatus ''a''].
      well_scheduled op \<and> op \<noteq> DisconnectAll \<and> ''a'' \<notin> attempted op"
    by (simp add: pending)
  have z: "\<forall>op\<in>set [ConnectClient unreachable_world ''b'' true_stdio, GetConnectedServerNames,
      InitializeClients mixed_world
        [(''d'', SSEClientTransport ''http://localhost:1''),
         (''c'', StdioClientTransport ''true'' [] [])]
        [(''c'', true_stdio), (''d'', local_sse), (''e'', websocket)],
      GetConnectionStatus ''a''].
      well_scheduled op \<and> op \<noteq> DisconnectAll \<and> ''z'' \<notin> attempted op"
    by (simp add: pending)
  have failed: "attempt_status unreachable_world (''a'', true_stdio) = Failed"
    by (simp add: batch_eval)
  show ?thesis
    using a z failed
      status_changes_only_by_disconnect_or_attempt
        [of "[ConnectClient unreachable_world ''b'' true_stdio, GetConnectedServerNames,
      InitializeClients mixed_world
        [(''d'', SSEClientTransport ''http://localhost:1''),
         (''c'', StdioClientTransport ''true'' [] [])]
        [(''c'', true_stdio), (''d'', local_sse), (''e'', websocket)],
      GetConnectionStatus ''a'']" "''a''"
          "\<lparr>clients = [(''a'', idle_client)], connectionStatus = [(''a'', Connected), (''z'', Failed)]\<rparr>" unreachable_world true_stdio]
      status_changes_only_by_disconnect_or_attempt
        [of "[ConnectClient unreachable_world ''b'' true_stdio, GetConnectedServerNames,
      InitializeClients mixed_world
        [(''d'', SSEClientTransport ''http://localhost:1''),
         (''c'', StdioClientTransport ''true'' [] [])]
        [(''c'', true_stdio), (''d'', local_sse), (''e'', websocket)],
      GetConnectionStatus ''a'']" "''z''"
          "\<lparr>clients = [(''a'', idle_client)], connectionStatus = [(''a'', Connected), (''z'', Failed)]\<rparr>" unreachable_world true_stdio]
    by (simp add: getConnectionStatus_def)
qed

section \<open>Properties of the schema cache\<close>

lemmas fetcher_eval = fetchSchemas_def fetchTools_def fetchResources_def tool_schema_def
  resource_schema_def getCachedSchemas_def hasCachedSchemas_def getAllSchemas_def
  new_McpSchemaFetcher_def tools_failing_client_def resources_failing_client_def
  both_failing_client_def readme_resource_def echo_tool_def sanitizeIdentifier_def
  is_identifier_char_def Let_def

text \<open>
  C7. The two listing calls of \<^verbatim>\<open>fetchSchemas\<close> fail independently. When the tool
  listing fails or answers no array and the resource listing answers an array,
  \<^verbatim>\<open>fetchSchemas\<close> returns no tools and one resource schema for each listed resource;
  and the same with tools and resources exchanged.
\<close>

theorem fetchSchemas_isolation:
  "((isl (listTools client) \<or> listTools client = Inr NotAnArray) \<and>
      listResources client = Inr (Items rs) \<longrightarrow>
      (\<exists>f'. fetchSchemas f client sname =
         Inr (\<lparr>serverName = sname, tools = [], resources = map resource_schema rs\<rparr>, f'))) \<and>
   ((isl (listResources client) \<or> listResources client = Inr NotAnArray) \<and>
      listTools client = Inr (Items ts) \<longrightarrow>
      (\<exists>f'. fetchSchemas f client sname =
         Inr (\<lparr>serverName = sname, tools = map tool_schema ts, resources = []\<rparr>, f')))"
  by (cases "listTools client"; cases "listResources client")
    (auto simp: fetchSchemas_def fetchTools_def fetchResources_def Let_def)

theorem fetchSchemas_isolation_witness:
  "isl (listTools tools_failing_client) \<and>
   listResources tools_failing_client = Inr (Items [readme_resource]) \<and>
   fetchSchemas new_McpSchemaFetcher tools_failing_client ''docs''
     = Inr (\<lparr>serverName = ''docs'', tools = [],
              resources = [\<lparr>name = ''read_me'', originalName = ''read-me'',
                description = None, uri = Some ''file:///README.md'', uriTemplate = None,
                mimeType = Some ''text/markdown''\<rparr>]\<rparr>,
            \<lparr>cache = [(''docs'', \<lparr>serverName = ''docs'', tools = [],
              resources = [\<lparr>name = ''read_me'', originalName = ''read-me'',
                description = None, uri = Some ''file:///README.md'', uriTemplate = None,
                mimeType = Some ''text/markdown''\<rparr>]\<rparr>)]\<rparr>) \<and>
   isl (listResources resources_failing_client) \<and>
   listTools resources_failing_client = Inr (Items [echo_tool]) \<and>
   fst (projr (fetchSchemas new_McpSchemaFetcher resources_failing_client ''echo''))
     = \<lparr>serverName = ''echo'',
        tools = [\<lparr>name = ''echo_text'', originalName = ''echo.text'',
          description = Some ''Echo'', inputSchema = JObj [(''type'', JStr ''object'')]\<rparr>],
        resources = []\<rparr>"
  using fetchSchemas_isolation
      [of tools_failing_client "[readme_resource]" new_McpSchemaFetcher "''docs''" "[]"]
    fetchSchemas_isolation
      [of resources_failing_client "[]" new_McpSchemaFetcher "''echo''" "[echo_tool]"]
  by (simp add: fetcher_eval)

text \<open>
  C8. \<^verbatim>\<open>getAllSchemas\<close> returns the empty list for every state of the cache, also right
  after \<^verbatim>\<open>fetchSchemas\<close> has stored an entry.
\<close>

theorem getAllSchemas_empty:
  "getAllSchemas f = [] \<and>
   (\<exists>s f'. fetchSchemas f client sname = Inr (s, f') \<and> cache f' \<noteq> [] \<and> getAllSchemas f' = [])"
proof -
  have "map_set sname s al \<noteq> []" for s :: McpServerSchemas and al
    by (cases al) simp_all
  then show ?thesis
    by (auto simp: getAllSchemas_def fetchSchemas_def fetchTools_def fetchResources_def Let_def
        split: sum.splits listing.splits)
qed

theorem getAllSchemas_empty_witness:
  "cache (snd (projr (fetchSchemas new_McpSchemaFetcher tools_failing_client ''docs''))) \<noteq> [] \<and>
   getAllSchemas (snd (projr (fetchSchemas new_McpSchemaFetcher tools_failing_client ''docs'')))
     = []"
  using getAllSchemas_empty
      [of "snd (projr (fetchSchemas new_McpSchemaFetcher tools_failing_client ''docs''))"
          tools_failing_client "''docs''"]
  by (simp add: fetcher_eval)

text \<open>
  C9. \<^verbatim>\<open>fetchSchemas\<close> always returns normally, stores what it returns in the cache
  under the server name and returns that value: afterwards the name is cached and the
  cached value is the returned one. When both listing calls fail, the entry has no tools
  and no resources.
\<close>

theorem fetchSchemas_caches:
  "\<exists>s f'. fetchSchemas f client sname = Inr (s, f') \<and>
      hasCachedSchemas f' sname \<and> getCachedSchemas f' sname = Some s \<and>
      serverName s = sname \<and>
      (isl (listTools client) \<and> isl (listResources client) \<longrightarrow>
         s = \<lparr>serverName = sname, tools = [], resources = []\<rparr>)"
  by (cases "listTools client"; cases "listResources client")
    (auto simp: fetchSchemas_def fetchTools_def fetchResources_def Let_def hasCachedSchemas_def
      getCachedSchemas_def map_of_map_set keys_map_set split: listing.splits)

theorem fetchSchemas_caches_witness:
  "isl (listTools both_failing_client) \<and> isl (listResources both_failing_client) \<and>
   fetchSchemas new_McpSchemaFetcher both_failing_client ''down''
     = Inr (\<lparr>serverName = ''down'', tools = [], resources = []\<rparr>,
            \<lparr>cache = [(''down'', \<lparr>serverName = ''down'', tools = [], resources = []\<rparr>)]\<rparr>) \<and>
   hasCachedSchemas
     \<lparr>cache = [(''down'', \<lparr>serverName = ''down'', tools = [], resources = []\<rparr>)]\<rparr> ''down'' \<and>
   getCachedSchemas
     \<lparr>cache = [(''down'', \<lparr>serverName = ''down'', tools = [], resources = []\<rparr>)]\<rparr> ''down''
     = Some \<lparr>serverName = ''down'', tools = [], resources = []\<rparr>"
  using fetchSchemas_caches [of new_McpSchemaFetcher both_failing_client "''down''"]
  by (simp add: fetcher_eval)

end
